theory Spec2Isabelle
  imports Complex_Main "HOL-Library.Word" "HOL-Library.Multiset"
begin

section \<open>Strings\<close>

text \<open>
  Strings are lists of 8-bit characters, read as the code units U+0000 to U+00FF. The
  model is exact on ASCII text. Case mapping is the one of the ASCII letters (\<open>a\<close>-\<open>z\<close>
  to \<open>A\<close>-\<open>Z\<close>); every other character is left as it is, also the accented letters of
  the upper half, which PostgreSQL's \<open>upper\<close> and JavaScript's \<open>toUpperCase\<close> would
  map. White space is JavaScript's \<open>\s\<close> class within the range: tab, line feed,
  vertical tab, form feed, carriage return, space and the no-break space.
\<close>

definition toUpperChar :: "char \<Rightarrow> char" where
  "toUpperChar c =
     (case map_of (zip ''abcdefghijklmnopqrstuvwxyz'' ''ABCDEFGHIJKLMNOPQRSTUVWXYZ'') c of
        Some u \<Rightarrow> u
      | None \<Rightarrow> c)"

definition toUpperCase :: "string \<Rightarrow> string" where
  "toUpperCase s = map toUpperChar s"

definition upper :: "string \<Rightarrow> string" where
  "upper s = map toUpperChar s"

definition is_space :: "char \<Rightarrow> bool" where
  "is_space c = (c \<in> set [CHR 0x09, CHR 0x0A, CHR 0x0B, CHR 0x0C, CHR 0x0D, CHR '' '', CHR 0xA0])"

definition trim :: "string \<Rightarrow> string" where
  "trim s = rev (dropWhile is_space (rev (dropWhile is_space s)))"

definition is_digit :: "char \<Rightarrow> bool" where
  "is_digit c = (c \<in> set ''0123456789'')"

text \<open>PostgreSQL's \<open>substr(string, start, len)\<close>: the characters at the 1-based
  positions \<open>start\<close> to \<open>start + len - 1\<close> that exist. The one call of the source has
  \<open>start = 1\<close> and \<open>len = 6\<close>.\<close>

definition substr :: "string \<Rightarrow> int \<Rightarrow> int \<Rightarrow> string" where
  "substr s start len =
     (let e = start + len; b = max start 1
      in take (nat (e - b)) (drop (nat (b - 1)) s))"

section \<open>MD5 digests as text\<close>

text \<open>
  PostgreSQL's \<open>md5(text)\<close> returns the 128-bit digest written as 32 lower-case
  hexadecimal digits, most significant nibble first. The digest function itself is a
  parameter \<open>md5 :: string \<Rightarrow> digest\<close> of the model; \<open>md5_text\<close> is the rendering.
\<close>

type_synonym digest = "128 word"

definition nibble :: "digest \<Rightarrow> nat \<Rightarrow> nat" where
  "nibble d i = unat (and (drop_bit (4 * (31 - i)) d) 15)"

definition hex_digit :: "nat \<Rightarrow> char" where
  "hex_digit n = ''0123456789abcdef'' ! n"

definition md5_text :: "digest \<Rightarrow> string" where
  "md5_text d = map (\<lambda>i. hex_digit (nibble d i)) [0..<32]"

section \<open>Tables\<close>

datatype booking_status = pending | confirmed | proceed | completed | cancelled

datatype van_status = available | maintenance | hidden

record features =
  wifi :: bool
  ac :: bool
  vip_seats :: bool

text \<open>
  Row-level security is outside the model: every operation is run by a caller whom the
  policies let read and write the rows involved (anyone may insert and read bookings,
  staff may update them), and the vans of a database are the van rows the caller can
  read. Concurrency is outside it as well: statements run one after the other.

  A row of \<open>public.vans\<close>. The columns \<open>id\<close>, \<open>status\<close>, \<open>created_at\<close> and
  \<open>updated_at\<close> carry the suffix \<open>_v\<close>. JavaScript numbers and \<open>NUMERIC(10,2)\<close> values
  are idealised as reals: the rounding of doubles, and the rounding to two decimals and
  the overflow of ten digits on storage, are not modelled. The total price of the model
  is therefore the exact product of the days and the rate: for 3 days at 0.1 it is 3/10,
  where the page computes the double 0.30000000000000004 and the table stores 0.30, and
  for 2 days at 60000000 it is 120000000, where the column overflows. Statements about
  totals are made only where this product is exact in the program as well: a total of
  one day is the rate itself, and 3 days at 1800 are 5400.
\<close>

record van =
  id_v :: string
  name :: string
  model :: string
  seats :: int
  price_per_day :: real
  image_url :: "string option"
  description :: "string option"
  van_features :: features
  status_v :: van_status
  co2_per_km :: "real option"
  created_at_v :: int
  updated_at_v :: int

text \<open>A row of \<open>public.bookings\<close> (column \<open>id\<close> is \<open>id_b\<close>). A \<open>DATE\<close> is the number
  of its day, a timestamp is an integer, \<open>NULL\<close> is \<open>None\<close>.\<close>

record booking =
  id_b :: string
  customer_name :: string
  customer_phone :: string
  van_id :: string
  start_date :: int
  end_date :: int
  pickup_location :: string
  pickup_time :: "string option"
  total_price :: real
  status :: booking_status
  "notes" :: "string option"
  created_at :: int
  updated_at :: int
  booking_code :: "string option"

record database =
  vans :: "van list"
  bookings :: "booking list"

text \<open>The non-null booking codes of a table, in row order. The column is declared
  \<open>UNIQUE\<close>: the constraint is \<open>distinct (codes bs)\<close>.\<close>

fun codes :: "booking list \<Rightarrow> string list" where
  "codes [] = []"
| "codes (b # bs) = (case booking_code b of None \<Rightarrow> codes bs | Some c \<Rightarrow> c # codes bs)"

section \<open>The trigger \<open>generate_booking_code\<close>\<close>

text \<open>
  \<^verbatim>\<open>
  LOOP
    new_code := upper(substr(md5(random()::text), 1, 6));
    SELECT EXISTS(SELECT 1 FROM public.bookings WHERE booking_code = new_code) INTO code_exists;
    EXIT WHEN NOT code_exists;
  END LOOP;
  NEW.booking_code := new_code;
  \<close>
  \<open>random i\<close> is the text of the \<open>i\<close>-th draw of \<open>random()\<close>. The loop has no bound, so
  the function is partial: \<open>None\<close> is the loop that never exits.
\<close>

partial_function (option) generate_loop ::
  "(string \<Rightarrow> digest) \<Rightarrow> (nat \<Rightarrow> string) \<Rightarrow> booking list \<Rightarrow> nat \<Rightarrow> string option" where
  "generate_loop md5 random bs i =
     (let new_code = upper (substr (md5_text (md5 (random i))) 1 6);
          code_exists = (new_code \<in> set (codes bs))
      in if \<not> code_exists then Some new_code else generate_loop md5 random bs (i + 1))"

definition generate_booking_code ::
  "(string \<Rightarrow> digest) \<Rightarrow> (nat \<Rightarrow> string) \<Rightarrow> booking list \<Rightarrow> booking \<Rightarrow> booking option" where
  "generate_booking_code md5 random bs NEW =
     (case generate_loop md5 random bs 0 of
        None \<Rightarrow> None
      | Some new_code \<Rightarrow> Some (NEW\<lparr>booking_code := Some new_code\<rparr>))"

section \<open>Database operations\<close>

datatype pg_error = unique_violation | foreign_key_violation | multiple_rows

text \<open>What the server supplies to a statement: the texts of the successive draws of
  \<open>random()\<close>, the value of \<open>gen_random_uuid()\<close> and of \<open>now()\<close>.\<close>

record pg_env =
  random_text :: "nat \<Rightarrow> string"
  gen_random_uuid :: string
  now :: int

text \<open>The columns an insert of the booking form supplies.\<close>

record bookings_insert =
  customer_name_i :: string
  customer_phone_i :: string
  van_id_i :: string
  start_date_i :: int
  end_date_i :: int
  pickup_location_i :: string
  pickup_time_i :: "string option"
  total_price_i :: real
  notes_i :: "string option"
  status_i :: booking_status

text \<open>
  \<open>INSERT INTO public.bookings\<close>: the column defaults (\<open>id\<close>, \<open>created_at\<close>,
  \<open>updated_at\<close>; the form supplies every other column but \<open>booking_code\<close>), the
  \<open>BEFORE INSERT\<close> trigger \<open>set_booking_code\<close>, then the constraints: primary key,
  \<open>booking_code UNIQUE\<close>, and the foreign key \<open>van_id REFERENCES vans(id)\<close>. \<open>None\<close> is
  the trigger that never returns.
\<close>

definition column_defaults :: "pg_env \<Rightarrow> bookings_insert \<Rightarrow> booking" where
  "column_defaults env r =
     \<lparr>id_b = gen_random_uuid env,
      customer_name = customer_name_i r,
      customer_phone = customer_phone_i r,
      van_id = van_id_i r,
      start_date = start_date_i r,
      end_date = end_date_i r,
      pickup_location = pickup_location_i r,
      pickup_time = pickup_time_i r,
      total_price = total_price_i r,
      status = status_i r,
      notes = notes_i r,
      created_at = now env,
      updated_at = now env,
      booking_code = None\<rparr>"

definition insert_bookings ::
  "(string \<Rightarrow> digest) \<Rightarrow> pg_env \<Rightarrow> bookings_insert \<Rightarrow> database
     \<Rightarrow> (pg_error + booking \<times> database) option" where
  "insert_bookings md5 env r db =
     (case generate_booking_code md5 (random_text env) (bookings db) (column_defaults env r) of
        None \<Rightarrow> None
      | Some row \<Rightarrow>
          Some (if id_b row \<in> set (map id_b (bookings db)) then Inl unique_violation
                else if (case booking_code row of
                           None \<Rightarrow> False
                         | Some c \<Rightarrow> c \<in> set (codes (bookings db)))
                  then Inl unique_violation
                else if van_id row \<notin> set (map id_v (vans db)) then Inl foreign_key_violation
                else Inr (row, db\<lparr>bookings := bookings db @ [row]\<rparr>)))"

text \<open>The trigger function \<open>update_updated_at_column\<close>, run before every update of a
  row of \<open>bookings\<close>.\<close>

definition update_updated_at_column :: "pg_env \<Rightarrow> booking \<Rightarrow> booking" where
  "update_updated_at_column env NEW = NEW\<lparr>updated_at := now env\<rparr>"

text \<open>\<open>UPDATE public.bookings SET status = s WHERE id = i\<close>. No constraint and no
  trigger of the schema looks at the old or the new status, so the statement has no
  error branch.\<close>

definition update_bookings_status ::
  "pg_env \<Rightarrow> string \<Rightarrow> booking_status \<Rightarrow> database \<Rightarrow> pg_error option \<times> database" where
  "update_bookings_status env i s db =
     (None,
      db\<lparr>bookings :=
           map (\<lambda>b. if id_b b = i then update_updated_at_column env (b\<lparr>status := s\<rparr>) else b)
             (bookings db)\<rparr>)"

text \<open>
  The backfill of the migration that adds the column:
  \<^verbatim>\<open>UPDATE public.bookings SET booking_code = upper(substr(md5(id::text), 1, 6))
  WHERE booking_code IS NULL;\<close>
  It fails on the \<open>UNIQUE\<close> constraint when two rows get the same code.
\<close>

definition backfill :: "(string \<Rightarrow> digest) \<Rightarrow> pg_env \<Rightarrow> booking list \<Rightarrow> pg_error + booking list" where
  "backfill md5 env bs =
     (let bs' = map (\<lambda>b. if booking_code b = None
                          then update_updated_at_column env
                                 (b\<lparr>booking_code := Some (upper (substr (md5_text (md5 (id_b b))) 1 6))\<rparr>)
                          else b) bs
      in if distinct (codes bs') then Inr bs' else Inl unique_violation)"

text \<open>
  The states of the database: the bookings table starts with the rows that the
  backfill has given a code (none, on a fresh installation), and is written by the
  insert of the booking form and by the status update of the administration page only.
  The vans table changes freely.
\<close>

inductive reachable :: "(string \<Rightarrow> digest) \<Rightarrow> database \<Rightarrow> bool" for md5 where
  migrated: "list_all (\<lambda>b. booking_code b = None) bs \<Longrightarrow> backfill md5 env bs = Inr bs'
     \<Longrightarrow> reachable md5 \<lparr>vans = vs, bookings = bs'\<rparr>"
| inserted: "reachable md5 db \<Longrightarrow> insert_bookings md5 env r db = Some (Inr (b, db'))
     \<Longrightarrow> reachable md5 db'"
| status_updated: "reachable md5 db \<Longrightarrow> update_bookings_status env i s db = (e, db')
     \<Longrightarrow> reachable md5 db'"
| vans_changed: "reachable md5 db \<Longrightarrow> reachable md5 (db\<lparr>vans := vs\<rparr>)"

code_pred reachable .

section \<open>The booking page\<close>

text \<open>The component \<open>Index\<close>: the booking form with \<open>handleSubmit\<close> and the lookup dialog
  with \<open>handleLookup\<close>.\<close>

record form_state =
  name_f :: string
  phone :: string
  pickup :: string
  pickupTime :: string
  notes_f :: string

text \<open>The state of the page that the booking form and the lookup dialog read and
  write. A \<open>Date\<close> picked in the calendar is the number of its day; the embedded
  \<open>vans(name, model, image_url)\<close> of a lookup is a triple, \<open>None\<close> when no van row is
  joined.\<close>

type_synonym lookup_row = "booking \<times> (string \<times> string \<times> string option) option"

record index_state =
  selectedVan :: "van option"
  startDate :: "int option"
  endDate :: "int option"
  form :: form_state
  lookupCode :: string
  lookupLoading :: bool
  lookupResult :: "lookup_row option"
  lookupError :: string

text \<open>The day number of the calendar date \<open>y-m-d\<close> (days since 1970-01-01, proleptic
  Gregorian calendar), to write dates down.\<close>

definition calendar_day :: "int \<Rightarrow> int \<Rightarrow> int \<Rightarrow> int" where
  "calendar_day y m d =
     (let y' = (if m \<le> 2 then y - 1 else y);
          era = y' div 400;
          yoe = y' - era * 400;
          doy = (153 * ((m + 9) mod 12) + 2) div 5 + d - 1;
          doe = yoe * 365 + yoe div 4 - yoe div 100 + doy
      in era * 146097 + doe - 719468)"

text \<open>\<open>differenceInDays\<close> of date-fns on two dates picked in the calendar (both at local
  midnight): the number of days from the right date to the left one.\<close>

definition differenceInDays :: "int \<Rightarrow> int \<Rightarrow> int" where
  "differenceInDays dateLeft dateRight = dateLeft - dateRight"

definition days :: "index_state \<Rightarrow> int" where
  "days st =
     (case (startDate st, endDate st) of
        (Some s, Some e) \<Rightarrow> differenceInDays e s
      | _ \<Rightarrow> 0)"

definition totalPrice :: "index_state \<Rightarrow> real" where
  "totalPrice st =
     (case selectedVan st of
        Some v \<Rightarrow> of_int (days st) * price_per_day v
      | None \<Rightarrow> 0)"

text \<open>\<^verbatim>\<open>/^(0[689]\d{8}|0[2-9]\d{7,8})$/\<close>\<close>

definition phoneRegex_test :: "string \<Rightarrow> bool" where
  "phoneRegex_test s =
     (case s of
        c0 # c1 # rest \<Rightarrow>
          c0 = CHR ''0'' \<and>
          (c1 \<in> set ''689'' \<and> length rest = 8 \<and> list_all is_digit rest
           \<or> c1 \<in> set ''23456789'' \<and> (length rest = 7 \<or> length rest = 8) \<and> list_all is_digit rest)
      | _ \<Rightarrow> False)"

text \<open>\<^verbatim>\<open>.replace(/[-\s]/g, "")\<close>\<close>

definition replace_separators :: "string \<Rightarrow> string" where
  "replace_separators s = filter (\<lambda>c. \<not> (c = CHR ''-'' \<or> is_space c)) s"

datatype submit_outcome =
    Not_Submitted
  | Invalid_Phone
  | Invalid_Dates
  | Booking_Failed pg_error
  | Booking_Created booking

text \<open>The two toasts that report a rejected input are the validation errors.\<close>

definition is_ValidationError :: "submit_outcome \<Rightarrow> bool" where
  "is_ValidationError out = (out = Invalid_Phone \<or> out = Invalid_Dates)"

definition handleSubmit ::
  "(string \<Rightarrow> digest) \<Rightarrow> pg_env \<Rightarrow> index_state \<Rightarrow> database \<Rightarrow> (submit_outcome \<times> database) option" where
  "handleSubmit md5 env st db =
     (case (selectedVan st, startDate st, endDate st) of
        (Some van, Some sd, Some ed) \<Rightarrow>
          if \<not> phoneRegex_test (replace_separators (phone (form st)))
            then Some (Invalid_Phone, db)
          else if days st < 1
            then Some (Invalid_Dates, db)
          else
            (case insert_bookings md5 env
                    \<lparr>customer_name_i = name_f (form st),
                     customer_phone_i = replace_separators (phone (form st)),
                     van_id_i = id_v van,
                     start_date_i = sd,
                     end_date_i = ed,
                     pickup_location_i = pickup (form st),
                     pickup_time_i = (if pickupTime (form st) = [] then None
                                      else Some (pickupTime (form st))),
                     total_price_i = totalPrice st,
                     notes_i = (if notes_f (form st) = [] then None else Some (notes_f (form st))),
                     status_i = pending\<rparr> db of
               None \<Rightarrow> None
             | Some (Inl error) \<Rightarrow> Some (Booking_Failed error, db)
             | Some (Inr (data, db')) \<Rightarrow> Some (Booking_Created data, db'))
      | _ \<Rightarrow> Some (Not_Submitted, db))"

text \<open>\<open>.maybeSingle()\<close>: no row is no data and no error, one row is the data, more rows
  are an error.\<close>

fun maybeSingle :: "'a list \<Rightarrow> 'a option \<times> pg_error option" where
  "maybeSingle [] = (None, None)"
| "maybeSingle [r] = (Some r, None)"
| "maybeSingle (r # r' # rs) = (None, Some multiple_rows)"

text \<open>\<^verbatim>\<open>.from("bookings").select("*, vans(name, model, image_url)").eq("booking_code", code)\<close>
  on the rows the caller can read.\<close>

definition select_by_booking_code :: "database \<Rightarrow> string \<Rightarrow> lookup_row list" where
  "select_by_booking_code db code =
     map (\<lambda>b. (b, map_option (\<lambda>v. (name v, model v, image_url v))
                    (find (\<lambda>v. id_v v = van_id b) (vans db))))
       (filter (\<lambda>b. booking_code b = Some code) (bookings db))"

text \<open>The message the dialog shows when no booking is found (the source's text is
  Thai; this is its translation).\<close>

definition not_found_message :: string where
  "not_found_message = ''No booking found with this code. Please check again.''"

definition handleLookup :: "database \<Rightarrow> index_state \<Rightarrow> index_state" where
  "handleLookup db st =
     (if trim (lookupCode st) = [] then st
      else
        (case maybeSingle (select_by_booking_code db (toUpperCase (trim (lookupCode st)))) of
           (data, error) \<Rightarrow>
             if error \<noteq> None \<or> data = None
               then st\<lparr>lookupLoading := False, lookupError := not_found_message, lookupResult := None\<rparr>
               else st\<lparr>lookupLoading := False, lookupError := [], lookupResult := data\<rparr>))"

section \<open>The administration page\<close>

text \<open>The component \<open>AdminBookings\<close>: \<open>fetchBookings\<close> and \<open>updateStatus\<close>.\<close>

text \<open>The labels of the enum \<open>booking_status\<close>; a filter that is no label is an error of
  the query, which then has no data.\<close>

definition booking_status_of_text :: "string \<Rightarrow> booking_status option" where
  "booking_status_of_text t =
     map_of [(''pending'', pending), (''confirmed'', confirmed), (''proceed'', proceed),
             (''completed'', completed), (''cancelled'', cancelled)] t"

text \<open>\<^verbatim>\<open>.order("created_at", { ascending: false })\<close>; the order of rows created at the same
  time is not determined by the query, the model fixes one.\<close>

definition order_created_at_desc :: "booking list \<Rightarrow> booking list" where
  "order_created_at_desc bs = rev (sort_key created_at bs)"

type_synonym admin_row = "booking \<times> (string \<times> string) option"

definition embed_vans :: "database \<Rightarrow> booking \<Rightarrow> admin_row" where
  "embed_vans db b =
     (b, map_option (\<lambda>v. (name v, model v)) (find (\<lambda>v. id_v v = van_id b) (vans db)))"

definition fetchBookings :: "string \<Rightarrow> database \<Rightarrow> admin_row list" where
  "fetchBookings filter_a db =
     (let data =
        (if filter_a \<noteq> ''all''
         then (case booking_status_of_text filter_a of
                 None \<Rightarrow> None
               | Some s \<Rightarrow>
                   Some (map (embed_vans db)
                           (order_created_at_desc (filter (\<lambda>b. status b = s) (bookings db)))))
         else Some (map (embed_vans db) (order_created_at_desc (bookings db))))
      in case data of None \<Rightarrow> [] | Some rows \<Rightarrow> rows)"

datatype admin_toast = Error pg_error | Status_Updated booking_status

text \<open>The update and its toast; after a success the page fetches the list again, which
  is \<open>fetchBookings\<close> on the new database.\<close>

definition updateStatus ::
  "pg_env \<Rightarrow> string \<Rightarrow> booking_status \<Rightarrow> database \<Rightarrow> admin_toast \<times> database" where
  "updateStatus env i s db =
     (case update_bookings_status env i s db of
        (Some error, db') \<Rightarrow> (Error error, db')
      | (None, db') \<Rightarrow> (Status_Updated s, db'))"

section \<open>Properties\<close>

text \<open>The format the specification gives to a booking code: six characters, each an
  upper-case letter or a digit.\<close>

definition alnum_upper :: "char set" where
  "alnum_upper = set ''ABCDEFGHIJKLMNOPQRSTUVWXYZ0123456789''"

definition is_code36 :: "string \<Rightarrow> bool" where
  "is_code36 c = (length c = 6 \<and> set c \<subseteq> alnum_upper)"

text \<open>The format the trigger produces: six upper-case hexadecimal digits.\<close>

definition upper_hex_digits :: "char set" where
  "upper_hex_digits = set ''0123456789ABCDEF''"

definition is_hex_code :: "string \<Rightarrow> bool" where
  "is_hex_code c = (length c = 6 \<and> set c \<subseteq> upper_hex_digits)"

text \<open>The candidate that the loop of the trigger computes from a digest.\<close>

definition new_code_of :: "digest \<Rightarrow> string" where
  "new_code_of d = upper (substr (md5_text d) 1 6)"

text \<open>Every booking holds a code, no two bookings hold the same code, and every code
  has the format of the trigger.\<close>

definition codes_invariant :: "booking list \<Rightarrow> bool" where
  "codes_invariant bs =
     (list_all (\<lambda>b. booking_code b \<noteq> None) bs \<and> distinct (map booking_code bs)
      \<and> list_all is_hex_code (codes bs))"

text \<open>A digest whose text begins with the six hexadecimal digits of \<open>s\<close> (in either
  case).\<close>

definition hex_value :: "char \<Rightarrow> nat" where
  "hex_value c =
     (case map_of (zip ''0123456789ABCDEF'' [0..<16]) c of Some n \<Rightarrow> n | None \<Rightarrow> 0)"

definition digest_with_prefix :: "string \<Rightarrow> digest" where
  "digest_with_prefix s = push_bit 104 (word_of_nat (foldl (\<lambda>a c. a * 16 + hex_value c) 0 s))"

text \<open>The row that \<open>handleSubmit\<close> sends to the database.\<close>

definition submitted_row :: "index_state \<Rightarrow> van \<Rightarrow> int \<Rightarrow> int \<Rightarrow> bookings_insert" where
  "submitted_row st van sd ed =
     \<lparr>customer_name_i = name_f (form st),
      customer_phone_i = replace_separators (phone (form st)),
      van_id_i = id_v van,
      start_date_i = sd,
      end_date_i = ed,
      pickup_location_i = pickup (form st),
      pickup_time_i = (if pickupTime (form st) = [] then None else Some (pickupTime (form st))),
      total_price_i = totalPrice st,
      notes_i = (if notes_f (form st) = [] then None else Some (notes_f (form st))),
      status_i = pending\<rparr>"

section \<open>Example data\<close>

text \<open>A digest function with two values, two server environments (the second draws
  the text \<open>0.25\<close> first and \<open>0.75\<close> afterwards), the van \<open>City Cruiser\<close> of the seed
  data, and a database that holds this van and no booking.\<close>

definition example_md5 :: "string \<Rightarrow> digest" where
  "example_md5 t =
     (if t = ''0.25'' then 0xA1B2C3D4E5F60718293A4B5C6D7E8F90
      else 0x0F0E0D0C0B0A09080706050403020100)"

definition example_env :: pg_env where
  "example_env = \<lparr>random_text = (\<lambda>i. ''0.25''), gen_random_uuid = ''b1'', now = 100\<rparr>"

definition example_env2 :: pg_env where
  "example_env2 =
     \<lparr>random_text = (\<lambda>i. if i = 0 then ''0.25'' else ''0.75''), gen_random_uuid = ''b2'',
      now = 200\<rparr>"

definition example_van :: van where
  "example_van =
     \<lparr>id_v = ''v4'', name = ''City Cruiser'', model = ''Hyundai H-1 Premium 2023'', seats = 9,
      price_per_day = 1800, image_url = Some ''city-cruiser.jpg'', description = None,
      van_features = \<lparr>wifi = False, ac = True, vip_seats = False\<rparr>, status_v = available,
      co2_per_km = None, created_at_v = 0, updated_at_v = 0\<rparr>"

definition example_db0 :: database where
  "example_db0 = \<lparr>vans = [example_van], bookings = []\<rparr>"

text \<open>The page with the booking form filled in, the booking that its submission
  creates, and the database after it.\<close>

definition example_state :: index_state where
  "example_state =
     \<lparr>selectedVan = Some example_van,
      startDate = Some (calendar_day 2025 6 10),
      endDate = Some (calendar_day 2025 6 13),
      form = \<lparr>name_f = ''Somchai'', phone = ''089-123 4567'', pickup = ''Don Mueang Airport'',
              pickupTime = [], notes_f = []\<rparr>,
      lookupCode = [], lookupLoading = False, lookupResult = None, lookupError = []\<rparr>"

definition example_booking :: booking where
  "example_booking =
     \<lparr>id_b = ''b1'', customer_name = ''Somchai'', customer_phone = ''0891234567'',
      van_id = ''v4'', start_date = 20249, end_date = 20252,
      pickup_location = ''Don Mueang Airport'', pickup_time = None, total_price = 5400,
      status = pending, notes = None, created_at = 100, updated_at = 100,
      booking_code = Some ''A1B2C3''\<rparr>"

definition example_db1 :: database where
  "example_db1 = \<lparr>vans = [example_van], bookings = [example_booking]\<rparr>"

text \<open>A database with three bookings, created at the times 100, 300 and 200.\<close>

definition example_db2 :: database where
  "example_db2 =
     \<lparr>vans = [example_van],
      bookings =
        [example_booking,
         example_booking\<lparr>id_b := ''b2'', status := confirmed, created_at := 300,
           updated_at := 300, booking_code := Some ''0F0E0D''\<rparr>,
         example_booking\<lparr>id_b := ''b3'', created_at := 200, updated_at := 200,
           booking_code := Some ''C0FFEE''\<rparr>]\<rparr>"

section \<open>The format of the candidates\<close>

lemma nibble_less: "nibble d i < 16"
proof -
  have "and (drop_bit (4 * (31 - i)) d) 15 \<le> (15 :: digest)"
    by (rule word_and_le1)
  then have "unat (and (drop_bit (4 * (31 - i)) d) 15) \<le> unat (15 :: digest)"
    by (simp only: word_le_nat_alt)
  then show ?thesis by (simp add: nibble_def)
qed

lemma new_code_of_eq:
  "new_code_of d = map (\<lambda>i. toUpperChar (hex_digit (nibble d i))) [0..<6]"
  by (simp add: new_code_of_def upper_def substr_def md5_text_def take_map)

lemma upper_hex_digit_all: "\<forall>n\<in>set [0..<16]. toUpperChar (hex_digit n) \<in> set ''0123456789ABCDEF''"
  by code_simp

lemma upper_hex_digit: "n < 16 \<Longrightarrow> toUpperChar (hex_digit n) \<in> upper_hex_digits"
  using upper_hex_digit_all unfolding upper_hex_digits_def by (simp del: set_simps)

lemma new_code_of_hex: "is_hex_code (new_code_of d)"
  by (auto simp add: is_hex_code_def new_code_of_eq upper_hex_digit nibble_less)

lemma upper_hex_digits_alnum: "upper_hex_digits \<subseteq> alnum_upper"
  unfolding upper_hex_digits_def alnum_upper_def by code_simp

lemma is_hex_code_36: "is_hex_code c \<Longrightarrow> is_code36 c"
  using upper_hex_digits_alnum by (auto simp: is_hex_code_def is_code36_def)

section \<open>The loop of the trigger\<close>

lemma generate_loop_unfold:
  "generate_loop md5 random bs i =
     (if new_code_of (md5 (random i)) \<notin> set (codes bs) then Some (new_code_of (md5 (random i)))
      else generate_loop md5 random bs (Suc i))"
  by (subst generate_loop.simps) (simp add: new_code_of_def Let_def)

lemma generate_loop_first:
  "new_code_of (md5 (random (i + k))) \<notin> set (codes bs) \<Longrightarrow>
   \<forall>j<k. new_code_of (md5 (random (i + j))) \<in> set (codes bs) \<Longrightarrow>
   generate_loop md5 random bs i = Some (new_code_of (md5 (random (i + k))))"
proof (induction k arbitrary: i)
  case 0
  then show ?case by (subst generate_loop_unfold) simp
next
  case (Suc k)
  from Suc.prems(2) have here: "new_code_of (md5 (random i)) \<in> set (codes bs)"
    by (metis add.right_neutral zero_less_Suc)
  have "generate_loop md5 random bs (Suc i) = Some (new_code_of (md5 (random (Suc i + k))))"
  proof (rule Suc.IH)
    show "new_code_of (md5 (random (Suc i + k))) \<notin> set (codes bs)"
      using Suc.prems(1) by simp
    show "\<forall>j<k. new_code_of (md5 (random (Suc i + j))) \<in> set (codes bs)"
      using Suc.prems(2) by (metis Suc_less_eq add_Suc_shift)
  qed
  with here show ?case by (subst generate_loop_unfold) simp
qed

lemma generate_loop_Some:
  "generate_loop md5 random bs i = Some c \<Longrightarrow>
   \<exists>k. c = new_code_of (md5 (random (i + k))) \<and> c \<notin> set (codes bs)
     \<and> (\<forall>j<k. new_code_of (md5 (random (i + j))) \<in> set (codes bs))"
proof (induction rule: generate_loop.raw_induct[rotated 1, consumes 1])
  case (1 generate_loop' md5 random bs i c)
  show ?case
  proof (cases "new_code_of (md5 (random i)) \<in> set (codes bs)")
    case False
    with 1(2) have "c = new_code_of (md5 (random (i + 0)))"
      by (simp add: new_code_of_def Let_def)
    with False show ?thesis by (intro exI[of _ 0]) simp
  next
    case True
    with 1(2) have "generate_loop' md5 random bs (i + 1) = Some c"
      by (simp add: new_code_of_def Let_def)
    from 1(1)[OF this] obtain k where k: "c = new_code_of (md5 (random (i + 1 + k)))"
      "c \<notin> set (codes bs)" "\<forall>j<k. new_code_of (md5 (random (i + 1 + j))) \<in> set (codes bs)"
      by blast
    have "\<forall>j<Suc k. new_code_of (md5 (random (i + j))) \<in> set (codes bs)"
    proof (intro allI impI)
      fix j assume "j < Suc k"
      show "new_code_of (md5 (random (i + j))) \<in> set (codes bs)"
      proof (cases j)
        case 0
        with True show ?thesis by simp
      next
        case (Suc j')
        with \<open>j < Suc k\<close> k(3) show ?thesis by simp
      qed
    qed
    with k(1,2) show ?thesis by (intro exI[of _ "Suc k"]) simp
  qed
qed

lemma generate_loop_None:
  "\<forall>k. new_code_of (md5 (random (i + k))) \<in> set (codes bs) \<Longrightarrow> generate_loop md5 random bs i = None"
  using generate_loop_Some[of md5 random bs i] by (cases "generate_loop md5 random bs i") auto

lemma generate_loop_terminates:
  assumes "new_code_of (md5 (random (i + k))) \<notin> set (codes bs)"
  shows "\<exists>c. generate_loop md5 random bs i = Some c"
proof -
  define m where "m = (LEAST k. new_code_of (md5 (random (i + k))) \<notin> set (codes bs))"
  have free: "new_code_of (md5 (random (i + m))) \<notin> set (codes bs)"
    unfolding m_def using assms by (rule LeastI)
  have "\<forall>j<m. new_code_of (md5 (random (i + j))) \<in> set (codes bs)"
    unfolding m_def using not_less_Least by blast
  with free show ?thesis using generate_loop_first by blast
qed

section \<open>Uniqueness of the codes\<close>

lemma codes_append: "codes (xs @ ys) = codes xs @ codes ys"
  by (induction xs) (auto split: option.splits)

lemma set_codes: "set (codes bs) = {c. Some c \<in> booking_code ` set bs}"
  by (induction bs) (auto split: option.splits)

lemma map_booking_code_codes:
  "list_all (\<lambda>b. booking_code b \<noteq> None) bs \<Longrightarrow> map booking_code bs = map Some (codes bs)"
  by (induction bs) auto

lemma codes_of_map: "codes bs = map the (filter (\<lambda>x. x \<noteq> None) (map booking_code bs))"
  by (induction bs) (auto split: option.splits)

lemma generate_booking_code_Some:
  assumes "generate_booking_code md5 random bs NEW = Some row"
  shows "\<exists>c. row = NEW\<lparr>booking_code := Some c\<rparr> \<and> is_hex_code c \<and> c \<notin> set (codes bs)"
proof -
  from assms obtain c where c: "generate_loop md5 random bs 0 = Some c"
    and row: "row = NEW\<lparr>booking_code := Some c\<rparr>"
    by (auto simp: generate_booking_code_def split: option.splits)
  from generate_loop_Some[OF c] have "is_hex_code c" "c \<notin> set (codes bs)"
    by (auto simp: new_code_of_hex)
  with row show ?thesis by blast
qed

lemma insert_bookings_Inr:
  assumes "insert_bookings md5 env r db = Some (Inr (b, db'))"
  shows "\<exists>c. b = (column_defaults env r)\<lparr>booking_code := Some c\<rparr> \<and> is_hex_code c
           \<and> c \<notin> set (codes (bookings db)) \<and> db' = db\<lparr>bookings := bookings db @ [b]\<rparr>"
proof -
  from assms obtain row where
    g: "generate_booking_code md5 (random_text env) (bookings db) (column_defaults env r) = Some row"
    by (auto simp: insert_bookings_def split: option.splits)
  with assms have "b = row" "db' = db\<lparr>bookings := bookings db @ [b]\<rparr>"
    by (auto simp: insert_bookings_def split: if_splits)
  with generate_booking_code_Some[OF g] show ?thesis by blast
qed

lemma insert_bookings_invariant:
  assumes "insert_bookings md5 env r db = Some (Inr (b, db'))" and "codes_invariant (bookings db)"
  shows "codes_invariant (bookings db')"
proof -
  from insert_bookings_Inr[OF assms(1)] obtain c where c: "booking_code b = Some c"
    "is_hex_code c" "c \<notin> set (codes (bookings db))" "bookings db' = bookings db @ [b]"
    by auto
  from c(3) have "Some c \<notin> booking_code ` set (bookings db)"
    by (simp add: set_codes)
  with assms(2) c show ?thesis
    by (simp add: codes_invariant_def codes_append)
qed

lemma update_bookings_status_codes:
  "map booking_code (bookings (snd (update_bookings_status env i s db))) = map booking_code (bookings db)"
  by (simp add: update_bookings_status_def update_updated_at_column_def comp_def)

lemma all_coded_iff: "list_all (\<lambda>b. booking_code b \<noteq> None) bs = (None \<notin> set (map booking_code bs))"
  by (induction bs) auto

lemma codes_invariant_alt:
  "codes_invariant bs =
     (None \<notin> set (map booking_code bs) \<and> distinct (map booking_code bs)
      \<and> list_all is_hex_code (map the (filter (\<lambda>x. x \<noteq> None) (map booking_code bs))))"
  unfolding codes_invariant_def all_coded_iff codes_of_map ..

lemma codes_invariant_cong:
  "map booking_code bs' = map booking_code bs \<Longrightarrow> codes_invariant bs' = codes_invariant bs"
  by (simp only: codes_invariant_alt)

lemma update_bookings_status_invariant:
  assumes "update_bookings_status env i s db = (e, db')" and "codes_invariant (bookings db)"
  shows "codes_invariant (bookings db')"
proof -
  from assms(1) have "db' = snd (update_bookings_status env i s db)"
    by simp
  then have "map booking_code (bookings db') = map booking_code (bookings db)"
    by (simp only: update_bookings_status_codes)
  from codes_invariant_cong[OF this] assms(2) show ?thesis
    by simp
qed

lemma backfill_invariant:
  assumes "list_all (\<lambda>b. booking_code b = None) bs" and "backfill md5 env bs = Inr bs'"
  shows "codes_invariant bs'"
proof -
  define f where "f = (\<lambda>b. if booking_code b = None
      then update_updated_at_column env
             (b\<lparr>booking_code := Some (upper (substr (md5_text (md5 (id_b b))) 1 6))\<rparr>)
      else b)"
  from assms(2) have bs': "bs' = map f bs" and d: "distinct (codes bs')"
    by (auto simp: backfill_def f_def Let_def split: if_splits)
  have code: "booking_code (f b) = Some (new_code_of (md5 (id_b b)))" if "b \<in> set bs" for b
    using that assms(1) by (simp add: f_def list_all_iff update_updated_at_column_def new_code_of_def)
  have 1: "list_all (\<lambda>b. booking_code b \<noteq> None) bs'"
    using code by (simp add: bs' list_all_iff)
  have 2: "distinct (map booking_code bs')"
    using d map_booking_code_codes[OF 1] by (simp add: distinct_map)
  have 3: "list_all is_hex_code (codes bs')"
  proof -
    have "is_hex_code c" if "c \<in> set (codes bs')" for c
    proof -
      from that obtain b where "b \<in> set bs" "booking_code (f b) = Some c"
        by (auto simp: set_codes bs')
      with code[of b] show ?thesis by (simp add: new_code_of_hex)
    qed
    then show ?thesis by (simp add: list_all_iff)
  qed
  from 1 2 3 show ?thesis by (simp add: codes_invariant_def)
qed

lemma reachable_invariant: "reachable md5 db \<Longrightarrow> codes_invariant (bookings db)"
proof (induction rule: reachable.induct)
  case (migrated bs env bs' vs)
  then show ?case by (simp add: backfill_invariant)
next
  case (inserted db env r b db')
  then show ?case by (simp add: insert_bookings_invariant)
next
  case (status_updated db env i s e db')
  then show ?case by (simp add: update_bookings_status_invariant)
next
  case (vans_changed db vs)
  then show ?case by simp
qed

lemma generate_loop_iff:
  "generate_loop md5 random bs 0 = Some c \<longleftrightarrow>
     (\<exists>k. c = new_code_of (md5 (random k)) \<and> c \<notin> set (codes bs)
        \<and> (\<forall>j<k. new_code_of (md5 (random j)) \<in> set (codes bs)))"
proof
  assume "generate_loop md5 random bs 0 = Some c"
  from generate_loop_Some[OF this] show "\<exists>k. c = new_code_of (md5 (random k)) \<and> c \<notin> set (codes bs)
        \<and> (\<forall>j<k. new_code_of (md5 (random j)) \<in> set (codes bs))"
    by simp
next
  assume "\<exists>k. c = new_code_of (md5 (random k)) \<and> c \<notin> set (codes bs)
        \<and> (\<forall>j<k. new_code_of (md5 (random j)) \<in> set (codes bs))"
  then obtain k where "c = new_code_of (md5 (random (0 + k)))"
    "new_code_of (md5 (random (0 + k))) \<notin> set (codes bs)"
    "\<forall>j<k. new_code_of (md5 (random (0 + j))) \<in> set (codes bs)"
    by auto
  with generate_loop_first[of md5 random 0 k bs] show "generate_loop md5 random bs 0 = Some c"
    by simp
qed

section \<open>The booking form\<close>

lemma handleSubmit_unfold:
  assumes "selectedVan st = Some van" "startDate st = Some sd" "endDate st = Some ed"
  shows "handleSubmit md5 env st db =
     (if \<not> phoneRegex_test (replace_separators (phone (form st))) then Some (Invalid_Phone, db)
      else if ed - sd < 1 then Some (Invalid_Dates, db)
      else (case insert_bookings md5 env (submitted_row st van sd ed) db of
              None \<Rightarrow> None
            | Some (Inl error) \<Rightarrow> Some (Booking_Failed error, db)
            | Some (Inr (data, db')) \<Rightarrow> Some (Booking_Created data, db')))"
  using assms by (simp add: handleSubmit_def submitted_row_def days_def differenceInDays_def)


section \<open>The candidate space\<close>

lemma nibble_arith: "nibble d i = (unat d div 2 ^ (4 * (31 - i))) mod 16"
proof -
  have "and (drop_bit (4 * (31 - i)) d) 15 = take_bit 4 (drop_bit (4 * (31 - i)) d)"
    by (simp add: take_bit_eq_mask mask_eq_exp_minus_1)
  then have "nibble d i = unat (take_bit 4 (drop_bit (4 * (31 - i)) d))"
    by (simp only: nibble_def)
  also have "\<dots> = take_bit 4 (drop_bit (4 * (31 - i)) (unat d))"
    by (simp only: unsigned_take_bit_eq unat_drop_bit_eq)
  also have "\<dots> = (unat d div 2 ^ (4 * (31 - i))) mod 16"
    by (simp only: take_bit_eq_mod drop_bit_eq_div) simp
  finally show ?thesis .
qed

lemma unat_digest:
  assumes "x < 2 ^ 24"
  shows "unat (push_bit 104 (word_of_nat x :: digest)) = x * 2 ^ 104"
proof -
  have "x * 2 ^ 104 < (2 ^ 24 * 2 ^ 104 :: nat)"
    using assms by simp
  then have "x * 2 ^ 104 < (2 ^ 128 :: nat)" by simp
  then show ?thesis
    by (simp add: push_bit_eq_mult unat_word_ariths unat_of_nat take_bit_eq_mod del: of_nat_mult)
qed

lemma nibble_prefix:
  assumes "x < 2 ^ 24" "i < 6"
  shows "nibble (push_bit 104 (word_of_nat x :: digest)) i = (x div 16 ^ (5 - i)) mod 16"
proof -
  have e: "(2::nat) ^ (4 * (31 - i)) = 2 ^ 104 * 16 ^ (5 - i)"
  proof -
    have "4 * (31 - i) = 104 + 4 * (5 - i)" using assms(2) by simp
    then have "(2::nat) ^ (4 * (31 - i)) = 2 ^ 104 * 2 ^ (4 * (5 - i))"
      by (simp only: power_add)
    also have "(2::nat) ^ (4 * (5 - i)) = 16 ^ (5 - i)"
      by (simp add: power_mult)
    finally show ?thesis .
  qed
  have "(x * 2 ^ 104) div (2 ^ 104 * 16 ^ (5 - i)) = x div 16 ^ (5 - i)"
    by (simp add: mult.commute[of x])
  then show ?thesis
    by (simp only: nibble_arith unat_digest[OF assms(1)] e)
qed

lemma nibble_prefix_all:
  assumes "x < 2 ^ 24"
  shows "nibble (push_bit 104 (word_of_nat x :: digest)) 0 = x div 16 ^ 5 mod 16"
    "nibble (push_bit 104 (word_of_nat x :: digest)) 1 = x div 16 ^ 4 mod 16"
    "nibble (push_bit 104 (word_of_nat x :: digest)) 2 = x div 16 ^ 3 mod 16"
    "nibble (push_bit 104 (word_of_nat x :: digest)) 3 = x div 16 ^ 2 mod 16"
    "nibble (push_bit 104 (word_of_nat x :: digest)) 4 = x div 16 ^ 1 mod 16"
    "nibble (push_bit 104 (word_of_nat x :: digest)) 5 = x div 16 ^ 0 mod 16"
proof -
  have e: "5 - 0 = (5::nat)" "5 - 1 = (4::nat)" "5 - 2 = (3::nat)" "5 - 3 = (2::nat)"
    "5 - 4 = (1::nat)" "5 - 5 = (0::nat)"
    by simp_all
  show "nibble (push_bit 104 (word_of_nat x :: digest)) 0 = x div 16 ^ 5 mod 16"
    using nibble_prefix[OF assms, of 0] by (simp only: e)
  show "nibble (push_bit 104 (word_of_nat x :: digest)) 1 = x div 16 ^ 4 mod 16"
    using nibble_prefix[OF assms, of 1] by (simp only: e)
  show "nibble (push_bit 104 (word_of_nat x :: digest)) 2 = x div 16 ^ 3 mod 16"
    using nibble_prefix[OF assms, of 2] by (simp only: e)
  show "nibble (push_bit 104 (word_of_nat x :: digest)) 3 = x div 16 ^ 2 mod 16"
    using nibble_prefix[OF assms, of 3] by (simp only: e)
  show "nibble (push_bit 104 (word_of_nat x :: digest)) 4 = x div 16 ^ 1 mod 16"
    using nibble_prefix[OF assms, of 4] by (simp only: e)
  show "nibble (push_bit 104 (word_of_nat x :: digest)) 5 = x div 16 ^ 0 mod 16"
    using nibble_prefix[OF assms, of 5] by (simp only: e)
qed

lemma hex_value_digit:
  "\<forall>c\<in>set ''0123456789ABCDEF''. hex_value c < 16 \<and> toUpperChar (hex_digit (hex_value c)) = c"
  by code_simp

lemma hex_value_less: "c \<in> upper_hex_digits \<Longrightarrow> hex_value c < 16"
  using hex_value_digit unfolding upper_hex_digits_def by (simp del: set_simps)

lemma hex_digit_hex_value: "c \<in> upper_hex_digits \<Longrightarrow> toUpperChar (hex_digit (hex_value c)) = c"
  using hex_value_digit unfolding upper_hex_digits_def by (simp del: set_simps)

lemma prefix_nibbles:
  fixes n0 n1 n2 n3 n4 n5 :: nat
  assumes "n0 < 16" "n1 < 16" "n2 < 16" "n3 < 16" "n4 < 16" "n5 < 16"
  defines "x \<equiv> ((((n0 * 16 + n1) * 16 + n2) * 16 + n3) * 16 + n4) * 16 + n5"
  shows "x < 2 ^ 24" "x div 16 ^ 5 mod 16 = n0" "x div 16 ^ 4 mod 16 = n1"
    "x div 16 ^ 3 mod 16 = n2" "x div 16 ^ 2 mod 16 = n3" "x div 16 ^ 1 mod 16 = n4"
    "x div 16 ^ 0 mod 16 = n5"
proof -
  have step: "(a * 16 + n) div 16 = a" "(a * 16 + n) mod 16 = n" if "n < 16" for a n :: nat
    using that by simp_all
  have d1: "x div 16 = (((n0 * 16 + n1) * 16 + n2) * 16 + n3) * 16 + n4"
    unfolding x_def using assms(6) by (rule step(1))
  have d2: "x div 16 div 16 = ((n0 * 16 + n1) * 16 + n2) * 16 + n3"
    unfolding d1 using assms(5) by (rule step(1))
  have d3: "x div 16 div 16 div 16 = (n0 * 16 + n1) * 16 + n2"
    unfolding d2 using assms(4) by (rule step(1))
  have d4: "x div 16 div 16 div 16 div 16 = n0 * 16 + n1"
    unfolding d3 using assms(3) by (rule step(1))
  have d5: "x div 16 div 16 div 16 div 16 div 16 = n0"
    unfolding d4 using assms(2) step(1)[of n1 n0] by simp
  have p: "x div 16 ^ 5 = x div 16 div 16 div 16 div 16 div 16"
    "x div 16 ^ 4 = x div 16 div 16 div 16 div 16"
    "x div 16 ^ 3 = x div 16 div 16 div 16"
    "x div 16 ^ 2 = x div 16 div 16"
    by (simp_all add: div_mult2_eq[symmetric])
  show "x < 2 ^ 24" using assms(1-6) unfolding x_def by simp
  show "x div 16 ^ 5 mod 16 = n0" unfolding p d5 using assms(1) by simp
  show "x div 16 ^ 4 mod 16 = n1" unfolding p d4 using assms(2) by (rule step(2))
  show "x div 16 ^ 3 mod 16 = n2" unfolding p d3 using assms(3) by (rule step(2))
  show "x div 16 ^ 2 mod 16 = n3" unfolding p d2 using assms(4) by (rule step(2))
  have "x div 16 mod 16 = n4" unfolding d1 using assms(5) by (rule step(2))
  then show "x div 16 ^ 1 mod 16 = n4" by simp
  have "x mod 16 = n5" unfolding x_def using assms(6) by (rule step(2))
  then show "x div 16 ^ 0 mod 16 = n5" by simp
qed

lemma new_code_of_digest_with_prefix:
  assumes "is_hex_code s"
  shows "new_code_of (digest_with_prefix s) = s"
proof -
  from assms have len: "length s = 6" and sub: "set s \<subseteq> upper_hex_digits"
    by (simp_all add: is_hex_code_def)
  from len obtain c0 c1 c2 c3 c4 c5 where s: "s = [c0, c1, c2, c3, c4, c5]"
    by (auto simp: length_Suc_conv eval_nat_numeral)
  define x where "x = ((((hex_value c0 * 16 + hex_value c1) * 16 + hex_value c2) * 16
      + hex_value c3) * 16 + hex_value c4) * 16 + hex_value c5"
  from sub s have in_hex: "c0 \<in> upper_hex_digits" "c1 \<in> upper_hex_digits" "c2 \<in> upper_hex_digits"
    "c3 \<in> upper_hex_digits" "c4 \<in> upper_hex_digits" "c5 \<in> upper_hex_digits"
    by simp_all
  note less = in_hex[THEN hex_value_less]
  note pn = prefix_nibbles[OF less, folded x_def]
  have "foldl (\<lambda>a c. a * 16 + hex_value c) 0 s = x"
    by (simp add: s x_def)
  then have d: "digest_with_prefix s = push_bit 104 (word_of_nat x)"
    by (simp only: digest_with_prefix_def)
  have n: "nibble (digest_with_prefix s) 0 = hex_value c0"
    "nibble (digest_with_prefix s) 1 = hex_value c1"
    "nibble (digest_with_prefix s) 2 = hex_value c2"
    "nibble (digest_with_prefix s) 3 = hex_value c3"
    "nibble (digest_with_prefix s) 4 = hex_value c4"
    "nibble (digest_with_prefix s) 5 = hex_value c5"
    by (simp_all only: d nibble_prefix_all[OF pn(1)] pn)
  have "[0..<6] = [0, 1, 2, 3, 4, 5]"
    by (simp add: upt_rec)
  then have "new_code_of (digest_with_prefix s) =
      map (\<lambda>i. toUpperChar (hex_digit (nibble (digest_with_prefix s) i))) [0, 1, 2, 3, 4, 5]"
    by (simp only: new_code_of_eq)
  also have "\<dots> = [c0, c1, c2, c3, c4, c5]"
    by (simp only: list.map n in_hex[THEN hex_digit_hex_value])
  finally show ?thesis by (simp only: s)
qed

lemma card_hex_codes: "card {s. is_hex_code s} = 16 ^ 6"
proof -
  have "distinct ''0123456789ABCDEF''" by simp
  then have "card upper_hex_digits = length ''0123456789ABCDEF''"
    unfolding upper_hex_digits_def by (rule distinct_card)
  then have c: "card upper_hex_digits = 16" by simp
  have f: "finite upper_hex_digits" by (simp add: upper_hex_digits_def)
  have "{s. is_hex_code s} = {s. set s \<subseteq> upper_hex_digits \<and> length s = 6}"
    by (auto simp: is_hex_code_def)
  then show ?thesis
    using card_lists_length_eq[OF f, of 6] by (simp add: c)
qed

lemma not_hex_ZZZZZZ: "\<not> is_hex_code ''ZZZZZZ''"
  by (simp add: is_hex_code_def upper_hex_digits_def)

lemma is_code36_ZZZZZZ: "is_code36 ''ZZZZZZ''"
  by (simp add: is_code36_def alnum_upper_def)

section \<open>Evaluating the examples\<close>

lemma new_code_of_example1: "new_code_of 0xA1B2C3D4E5F60718293A4B5C6D7E8F90 = ''A1B2C3''"
  by (simp add: new_code_of_eq toUpperChar_def nibble_def hex_digit_def upt_rec drop_bit_eq_div)

lemma new_code_of_example2: "new_code_of 0x0F0E0D0C0B0A09080706050403020100 = ''0F0E0D''"
  by (simp add: new_code_of_eq toUpperChar_def nibble_def hex_digit_def upt_rec drop_bit_eq_div)

lemma example_generate1:
  "generate_booking_code example_md5 (random_text example_env) [] NEW = Some (NEW\<lparr>booking_code := Some ''A1B2C3''\<rparr>)"
proof -
  have "generate_loop example_md5 (random_text example_env) [] 0 = Some ''A1B2C3''"
    by (subst generate_loop_unfold) (simp add: example_md5_def example_env_def new_code_of_example1)
  then show ?thesis by (simp add: generate_booking_code_def)
qed

lemma example_insert1:
  assumes "van_id_i r = ''v4''"
  shows "insert_bookings example_md5 example_env r example_db0 =
     Some (Inr ((column_defaults example_env r)\<lparr>booking_code := Some ''A1B2C3''\<rparr>,
                example_db0\<lparr>bookings := [(column_defaults example_env r)\<lparr>booking_code := Some ''A1B2C3''\<rparr>]\<rparr>))"
proof -
  have g: "generate_booking_code example_md5 (random_text example_env) (bookings example_db0)
      (column_defaults example_env r) = Some ((column_defaults example_env r)\<lparr>booking_code := Some ''A1B2C3''\<rparr>)"
    by (simp add: example_db0_def example_generate1)
  have v: "van_id ((column_defaults example_env r)\<lparr>booking_code := Some ''A1B2C3''\<rparr>) = ''v4''"
    using assms by (simp add: column_defaults_def)
  show ?thesis
    unfolding insert_bookings_def g
    by (simp add: v) (simp add: example_db0_def example_van_def)
qed

lemma calendar_day_examples:
  "calendar_day 2025 6 10 = 20249" "calendar_day 2025 6 11 = 20250" "calendar_day 2025 6 13 = 20252"
  by (simp_all add: calendar_day_def)

lemma replace_separators_example: "replace_separators ''089-123 4567'' = ''0891234567''"
  by (simp add: replace_separators_def is_space_def)

lemma phoneRegex_test_example: "phoneRegex_test ''0891234567''"
  by (simp add: phoneRegex_test_def is_digit_def)

lemma example_submitted_row:
  "column_defaults example_env (submitted_row example_state example_van 20249 20252)
     \<lparr>booking_code := Some ''A1B2C3''\<rparr> = example_booking"
  by (simp add: column_defaults_def submitted_row_def example_state_def example_env_def
      example_booking_def example_van_def replace_separators_example totalPrice_def days_def
      differenceInDays_def calendar_day_examples)

lemma example_insert:
  "insert_bookings example_md5 example_env (submitted_row example_state example_van 20249 20252)
     example_db0 = Some (Inr (example_booking, example_db1))"
proof -
  have "van_id_i (submitted_row example_state example_van 20249 20252) = ''v4''"
    by (simp add: submitted_row_def example_van_def)
  from example_insert1[OF this] show ?thesis
    by (simp add: example_submitted_row example_db0_def example_db1_def)
qed


lemma reachable_example_db0: "reachable example_md5 example_db0"
proof -
  have "backfill example_md5 example_env [] = Inr []"
    by (simp add: backfill_def)
  from reachable.migrated[of "[]" example_md5 example_env "[]" "[example_van]"] this
  show ?thesis by (simp add: example_db0_def)
qed

lemma reachable_example_db1: "reachable example_md5 example_db1"
  using reachable.inserted[OF reachable_example_db0 example_insert] .

lemma digest_with_prefix_example: "digest_with_prefix ''C0FFEE'' = 0xC0FFEE00000000000000000000000000"
  by (simp add: digest_with_prefix_def hex_value_def upt_rec)

section \<open>Submitting the booking form\<close>

lemma totalPrice_selected:
  assumes "selectedVan st = Some van" "startDate st = Some sd" "endDate st = Some ed"
  shows "days st = ed - sd" "totalPrice st = of_int (ed - sd) * price_per_day van"
  using assms by (simp_all add: totalPrice_def days_def differenceInDays_def)


lemma column_defaults_fields:
  "customer_phone ((column_defaults env r)\<lparr>booking_code := c\<rparr>) = customer_phone_i r"
  "total_price ((column_defaults env r)\<lparr>booking_code := c\<rparr>) = total_price_i r"
  "start_date ((column_defaults env r)\<lparr>booking_code := c\<rparr>) = start_date_i r"
  "end_date ((column_defaults env r)\<lparr>booking_code := c\<rparr>) = end_date_i r"
  "van_id ((column_defaults env r)\<lparr>booking_code := c\<rparr>) = van_id_i r"
  "status ((column_defaults env r)\<lparr>booking_code := c\<rparr>) = status_i r"
  "id_b ((column_defaults env r)\<lparr>booking_code := c\<rparr>) = gen_random_uuid env"
  "booking_code ((column_defaults env r)\<lparr>booking_code := c\<rparr>) = c"
  by (simp_all add: column_defaults_def)

lemma submitted_row_fields:
  "customer_phone_i (submitted_row st van sd ed) = replace_separators (phone (form st))"
  "total_price_i (submitted_row st van sd ed) = totalPrice st"
  "start_date_i (submitted_row st van sd ed) = sd"
  "end_date_i (submitted_row st van sd ed) = ed"
  "van_id_i (submitted_row st van sd ed) = id_v van"
  "status_i (submitted_row st van sd ed) = pending"
  by (simp_all add: submitted_row_def)

lemma insert_bookings_succeeds:
  assumes fk: "van_id_i r \<in> set (map id_v (vans db))"
    and pk: "gen_random_uuid env \<notin> set (map id_b (bookings db))"
    and free: "new_code_of (md5 (random_text env k)) \<notin> set (codes (bookings db))"
  shows "\<exists>c. insert_bookings md5 env r db =
           Some (Inr ((column_defaults env r)\<lparr>booking_code := Some c\<rparr>,
                      db\<lparr>bookings := bookings db @ [(column_defaults env r)\<lparr>booking_code := Some c\<rparr>]\<rparr>))"
proof -
  from generate_loop_terminates[of md5 "random_text env" 0 k "bookings db"] free
  obtain c where c: "generate_loop md5 (random_text env) (bookings db) 0 = Some c"
    by auto
  from generate_loop_Some[OF c] have fresh: "c \<notin> set (codes (bookings db))"
    by auto
  have g: "generate_booking_code md5 (random_text env) (bookings db) (column_defaults env r)
      = Some ((column_defaults env r)\<lparr>booking_code := Some c\<rparr>)"
    by (simp add: generate_booking_code_def c)
  have "insert_bookings md5 env r db =
           Some (Inr ((column_defaults env r)\<lparr>booking_code := Some c\<rparr>,
                      db\<lparr>bookings := bookings db @ [(column_defaults env r)\<lparr>booking_code := Some c\<rparr>]\<rparr>))"
    unfolding insert_bookings_def g using fk pk fresh
    by (simp add: column_defaults_fields)
  then show ?thesis ..
qed




lemma example_state_fields:
  "selectedVan example_state = Some example_van"
  "startDate example_state = Some (calendar_day 2025 6 10)"
  "endDate example_state = Some (calendar_day 2025 6 13)"
  "phone (form example_state) = ''089-123 4567''"
  by (simp_all add: example_state_def)

lemma example_db0_fields:
  "vans example_db0 = [example_van]" "bookings example_db0 = []"
  "gen_random_uuid example_env = ''b1''" "id_v example_van = ''v4''"
  "price_per_day example_van = 1800"
  by (simp_all add: example_db0_def example_env_def example_van_def)

lemma handleSubmit_Invalid_Phone:
  assumes "selectedVan st = Some van" "startDate st = Some sd" "endDate st = Some ed"
  shows "handleSubmit md5 env st db = Some (Invalid_Phone, db')
     \<longleftrightarrow> \<not> phoneRegex_test (replace_separators (phone (form st))) \<and> db' = db"
  unfolding handleSubmit_unfold[OF assms]
  by (auto split: option.splits sum.splits)

lemma handleSubmit_Invalid_Dates:
  assumes "selectedVan st = Some van" "startDate st = Some sd" "endDate st = Some ed"
  shows "handleSubmit md5 env st db = Some (Invalid_Dates, db')
     \<longleftrightarrow> phoneRegex_test (replace_separators (phone (form st))) \<and> ed - sd < 1 \<and> db' = db"
  unfolding handleSubmit_unfold[OF assms]
  by (auto split: option.splits sum.splits)

lemma example_submit_plain:
  "handleSubmit example_md5 example_env
     (example_state\<lparr>form := (form example_state)\<lparr>phone := ''0891234567''\<rparr>\<rparr>) example_db0
     = Some (Booking_Created example_booking, example_db1)"
proof -
  let ?st = "example_state\<lparr>form := (form example_state)\<lparr>phone := ''0891234567''\<rparr>\<rparr>"
  have sel: "selectedVan ?st = Some example_van" "startDate ?st = Some 20249"
    "endDate ?st = Some 20252"
    by (simp_all add: example_state_def calendar_day_examples)
  have r: "replace_separators ''0891234567'' = ''0891234567''"
    by (simp add: replace_separators_def is_space_def)
  have ph: "phoneRegex_test (replace_separators (phone (form ?st)))"
    by (simp add: r phoneRegex_test_example)
  have "submitted_row ?st example_van 20249 20252 = submitted_row example_state example_van 20249 20252"
    by (simp add: submitted_row_def example_state_def r replace_separators_example totalPrice_def
        days_def)
  then show ?thesis
    by (simp add: handleSubmit_unfold[OF sel] r phoneRegex_test_example example_insert)
qed

section \<open>Lookup and administration\<close>

lemma trim_surrounded:
  assumes pre: "list_all is_space pre" and post: "list_all is_space post"
    and v: "v \<noteq> []" "\<not> is_space (hd v)" "\<not> is_space (last v)"
  shows "trim (pre @ v @ post) = v"
proof -
  from v(1,2) have dv: "dropWhile is_space (v @ post) = v @ post"
    by (cases v) simp_all
  from pre have "dropWhile is_space (pre @ v @ post) = dropWhile is_space (v @ post)"
    by (intro dropWhile_append2) (simp add: list_all_iff)
  with dv have 1: "dropWhile is_space (pre @ v @ post) = v @ post" by simp
  from v(1,3) have "dropWhile is_space (rev v) = rev v"
    by (cases "rev v") (simp_all add: last_rev[symmetric] hd_rev)
  moreover from post have "dropWhile is_space (rev post @ rev v) = dropWhile is_space (rev v)"
    by (intro dropWhile_append2) (simp add: list_all_iff)
  ultimately have "dropWhile is_space (rev (v @ post)) = rev v" by simp
  with 1 show ?thesis by (simp add: trim_def)
qed

lemma space_not_hex: "\<forall>x\<in>set [CHR 0x09, CHR 0x0A, CHR 0x0B, CHR 0x0C, CHR 0x0D, CHR '' '', CHR 0xA0].
    toUpperChar x \<notin> set ''0123456789ABCDEF''"
  by code_simp

lemma toUpperChar_hex_not_space: "toUpperChar x \<in> upper_hex_digits \<Longrightarrow> \<not> is_space x"
  using space_not_hex unfolding upper_hex_digits_def is_space_def by (auto simp del: set_simps)

lemma toUpperCase_hex_code:
  assumes "toUpperCase v = c" "is_hex_code c"
  shows "v \<noteq> []" "\<not> is_space (hd v)" "\<not> is_space (last v)"
proof -
  from assms have len: "length v = 6" and hex: "\<forall>x\<in>set v. toUpperChar x \<in> upper_hex_digits"
    by (auto simp: toUpperCase_def is_hex_code_def)
  from len show ne: "v \<noteq> []" by auto
  from ne hex show "\<not> is_space (hd v)" "\<not> is_space (last v)"
    by (simp_all add: toUpperChar_hex_not_space)
qed

lemma filter_unique:
  "distinct (map f xs) \<Longrightarrow> x \<in> set xs \<Longrightarrow> filter (\<lambda>y. f y = f x) xs = [x]"
proof (induction xs)
  case Nil
  then show ?case by simp
next
  case (Cons a xs)
  show ?case
  proof (cases "a = x")
    case True
    with Cons.prems(1) have "filter (\<lambda>y. f y = f x) xs = []"
      by (auto simp: filter_empty_conv image_iff)
    with True show ?thesis by simp
  next
    case False
    with Cons.prems have "x \<in> set xs" "f a \<noteq> f x" by auto
    with Cons show ?thesis by simp
  qed
qed

lemma filter_no_code:
  "c \<notin> set (codes bs) \<Longrightarrow> filter (\<lambda>b. booking_code b = Some c) bs = []"
  by (auto simp: filter_empty_conv set_codes image_iff)

lemma select_by_booking_code_unique:
  assumes "codes_invariant (bookings db)" "b \<in> set (bookings db)" "booking_code b = Some c"
  shows "select_by_booking_code db c =
     [(b, map_option (\<lambda>v. (name v, model v, image_url v)) (find (\<lambda>v. id_v v = van_id b) (vans db)))]"
proof -
  from assms(1) have "distinct (map booking_code (bookings db))"
    by (simp add: codes_invariant_def)
  from filter_unique[OF this assms(2)] assms(3)
  have "filter (\<lambda>y. booking_code y = Some c) (bookings db) = [b]" by simp
  then show ?thesis by (simp add: select_by_booking_code_def)
qed

lemma handleLookup_found:
  assumes "trim (lookupCode st) \<noteq> []"
    and "select_by_booking_code db (toUpperCase (trim (lookupCode st))) = [row]"
  shows "handleLookup db st = st\<lparr>lookupLoading := False, lookupError := [], lookupResult := Some row\<rparr>"
  using assms by (simp add: handleLookup_def)

lemma handleLookup_not_found:
  assumes "trim (lookupCode st) \<noteq> []"
    and "toUpperCase (trim (lookupCode st)) \<notin> set (codes (bookings db))"
  shows "handleLookup db st =
     st\<lparr>lookupLoading := False, lookupError := not_found_message, lookupResult := None\<rparr>"
  using assms by (simp add: handleLookup_def select_by_booking_code_def filter_no_code)

lemma handleLookup_blank: "trim (lookupCode st) = [] \<Longrightarrow> handleLookup db st = st"
  by (simp add: handleLookup_def)

lemma example_db1_fields:
  "bookings example_db1 = [example_booking]" "vans example_db1 = [example_van]"
  "booking_code example_booking = Some ''A1B2C3''" "van_id example_booking = ''v4''"
  "id_b example_booking = ''b1''" "status example_booking = pending"
  "codes (bookings example_db1) = [''A1B2C3'']"
  by (simp_all add: example_db1_def example_booking_def)

lemma updateStatus_eq:
  "updateStatus env i s db =
     (Status_Updated s,
      db\<lparr>bookings := map (\<lambda>b. if id_b b = i then b\<lparr>status := s, updated_at := now env\<rparr> else b)
                         (bookings db)\<rparr>)"
  by (simp add: updateStatus_def update_bookings_status_def update_updated_at_column_def)

lemma updateStatus_bookings:
  "bookings (snd (updateStatus env i s db)) =
     map (\<lambda>b. if id_b b = i then b\<lparr>status := s, updated_at := now env\<rparr> else b) (bookings db)"
  by (simp add: updateStatus_eq)

lemma in_set_mapD: "y \<in> set (map f xs) \<Longrightarrow> \<exists>x\<in>set xs. f x = y"
  by auto

lemma booking_status_of_text_all: "booking_status_of_text ''all'' = None"
  by (simp add: booking_status_of_text_def)

lemma fetchBookings_status:
  assumes "booking_status_of_text f = Some s"
  shows "fetchBookings f db =
     map (embed_vans db) (order_created_at_desc (filter (\<lambda>b. status b = s) (bookings db)))"
proof -
  from assms have "f \<noteq> ''all''"
    using booking_status_of_text_all by auto
  with assms show ?thesis by (simp add: fetchBookings_def)
qed

lemma fetchBookings_all:
  "fetchBookings ''all'' db = map (embed_vans db) (order_created_at_desc (bookings db))"
  by (simp add: fetchBookings_def)

lemma fst_embed_vans: "map fst (map (embed_vans db) bs) = bs"
  by (simp add: comp_def embed_vans_def)

lemma mset_order_created_at_desc: "mset (order_created_at_desc bs) = mset bs"
  by (simp add: order_created_at_desc_def)

lemma sorted_order_created_at_desc:
  "sorted_wrt (\<lambda>x y. created_at y \<le> created_at x) (order_created_at_desc bs)"
proof -
  have "sorted (map created_at (sort_key created_at bs))"
    by (rule sorted_sort_key)
  then have "sorted_wrt (\<lambda>x y. created_at x \<le> created_at y) (sort_key created_at bs)"
    by (simp add: sorted_wrt_map)
  then show ?thesis
    by (simp add: order_created_at_desc_def sorted_wrt_rev)
qed

lemma example_db2_pending:
  "map fst (fetchBookings ''pending'' example_db2)
     = [example_booking\<lparr>id_b := ''b3'', created_at := 200, updated_at := 200,
          booking_code := Some ''C0FFEE''\<rparr>, example_booking]"
proof -
  have p: "booking_status_of_text ''pending'' = Some pending"
    by (simp add: booking_status_of_text_def)
  show ?thesis
    unfolding fetchBookings_status[OF p] fst_embed_vans
    by (simp add: example_db2_def example_booking_def order_created_at_desc_def)
qed

section \<open>The phone number without its separators\<close>








section \<open>Claims\<close>

text \<open>
  Claim C1. Every generated booking code has length 6 with every character in
  \<open>[A-Z0-9]\<close>, and no two bookings ever hold the same code: the loop of the trigger
  returns exactly the first candidate that collides with no stored code (and returns
  whenever some draw gives such a candidate); in every reachable state of the database
  each booking holds a code, the codes are pairwise distinct and well-formed.
\<close>

theorem booking_codes_wellformed_unique:
  "(generate_loop md5 random bs 0 = Some c \<longleftrightarrow>
      (\<exists>k. c = new_code_of (md5 (random k)) \<and> c \<notin> set (codes bs)
         \<and> (\<forall>j<k. new_code_of (md5 (random j)) \<in> set (codes bs))))
   \<and> is_code36 (new_code_of d)
   \<and> (reachable md5 db \<longrightarrow>
        list_all (\<lambda>b. booking_code b \<noteq> None) (bookings db)
        \<and> distinct (map booking_code (bookings db))
        \<and> list_all is_code36 (codes (bookings db)))"
proof (intro conjI impI)
  show "generate_loop md5 random bs 0 = Some c \<longleftrightarrow>
      (\<exists>k. c = new_code_of (md5 (random k)) \<and> c \<notin> set (codes bs)
         \<and> (\<forall>j<k. new_code_of (md5 (random j)) \<in> set (codes bs)))"
    by (rule generate_loop_iff)
  show "is_code36 (new_code_of d)"
    by (simp add: is_hex_code_36 new_code_of_hex)
next
  assume "reachable md5 db"
  then have inv: "codes_invariant (bookings db)" by (rule reachable_invariant)
  then show "list_all (\<lambda>b. booking_code b \<noteq> None) (bookings db)"
    and "distinct (map booking_code (bookings db))"
    by (simp_all add: codes_invariant_def)
  from inv show "list_all is_code36 (codes (bookings db))"
    by (auto simp: codes_invariant_def list_all_iff is_hex_code_36)
qed

text \<open>
  A forced collision: the database holds the example booking with the code \<open>A1B2C3\<close>,
  the first draw gives \<open>A1B2C3\<close> again and the second gives \<open>0F0E0D\<close>.
\<close>

theorem booking_codes_wellformed_unique_witness:
  "generate_loop example_md5 (random_text example_env2) (bookings example_db1) 0 = Some ''0F0E0D''
   \<and> new_code_of (example_md5 (random_text example_env2 0)) \<in> set (codes (bookings example_db1))
   \<and> ''0F0E0D'' = new_code_of (example_md5 (random_text example_env2 1))
   \<and> ''0F0E0D'' \<notin> set (codes (bookings example_db1))
   \<and> is_code36 ''0F0E0D''
   \<and> reachable example_md5 example_db1
   \<and> list_all (\<lambda>b. booking_code b \<noteq> None) (bookings example_db1)
   \<and> distinct (map booking_code (bookings example_db1))
   \<and> list_all is_code36 (codes (bookings example_db1))"
proof -
  have c: "codes (bookings example_db1) = [''A1B2C3'']"
    by (simp add: example_db1_def example_booking_def)
  have r: "new_code_of (example_md5 (random_text example_env2 k))
      = (if k = 0 then ''A1B2C3'' else ''0F0E0D'')" for k
    by (simp add: example_md5_def example_env2_def new_code_of_example1 new_code_of_example2)
  have first: "\<exists>k. ''0F0E0D'' = new_code_of (example_md5 (random_text example_env2 k))
      \<and> ''0F0E0D'' \<notin> set (codes (bookings example_db1))
      \<and> (\<forall>j<k. new_code_of (example_md5 (random_text example_env2 j)) \<in> set (codes (bookings example_db1)))"
    by (rule exI[of _ 1]) (simp add: r c)
  from booking_codes_wellformed_unique[of example_md5 "random_text example_env2"
      "bookings example_db1" "''0F0E0D''" "example_md5 (random_text example_env2 1)" example_db1]
    first reachable_example_db1
  show ?thesis by (simp add: r c)
qed

text \<open>
  Claim C2, as stated: every 6-character string over \<open>A-Z\<close> and \<open>0-9\<close> is a possible
  output of the generator (36^6 codes). It fails: the candidates are the first six
  digits of an MD5 text in upper case, so no run of the loop, whatever the digest function,
  the draws and the stored bookings, returns \<open>ZZZZZZ\<close>.
\<close>

theorem candidate_space_counterexample:
  "is_code36 ''ZZZZZZ'' \<and> \<not> (\<exists>md5 random bs. generate_loop md5 random bs 0 = Some ''ZZZZZZ'')"
proof -
  have "generate_loop md5 random bs 0 \<noteq> Some ''ZZZZZZ''" for md5 random bs
  proof
    assume "generate_loop md5 random bs 0 = Some ''ZZZZZZ''"
    from generate_loop_Some[OF this] have "is_hex_code ''ZZZZZZ''"
      by (auto simp: new_code_of_hex)
    with not_hex_ZZZZZZ show False ..
  qed
  with is_code36_ZZZZZZ show ?thesis by blast
qed

text \<open>
  Claim C2, amended. The candidate space is the set of 6-character strings over the
  upper-case hexadecimal digits \<open>0-9\<close>, \<open>A-F\<close>, which has 16^6 = 16777216 elements:
  every output of the generator is such a string, and for every such string some value
  of the digest of the first draw makes the generator produce it (when no stored booking
  holds it).
\<close>

theorem candidate_space_hex:
  "(generate_loop md5 random bs 0 = Some c \<longrightarrow> is_hex_code c)
   \<and> (is_hex_code s \<longrightarrow>
        new_code_of (digest_with_prefix s) = s
        \<and> (md5 (random 0) = digest_with_prefix s \<and> s \<notin> set (codes bs)
             \<longrightarrow> generate_loop md5 random bs 0 = Some s))
   \<and> card {s. is_hex_code s} = 16 ^ 6"
proof (intro conjI impI)
  assume "generate_loop md5 random bs 0 = Some c"
  from generate_loop_Some[OF this] show "is_hex_code c"
    by (auto simp: new_code_of_hex)
next
  assume h: "is_hex_code s"
  then show "new_code_of (digest_with_prefix s) = s"
    by (rule new_code_of_digest_with_prefix)
  assume "md5 (random 0) = digest_with_prefix s \<and> s \<notin> set (codes bs)"
  with new_code_of_digest_with_prefix[OF h]
  show "generate_loop md5 random bs 0 = Some s"
    by (subst generate_loop_unfold) simp
next
  show "card {s. is_hex_code s} = 16 ^ 6" by (rule card_hex_codes)
qed

text \<open>
  The code \<open>C0FFEE\<close>.
\<close>

theorem candidate_space_hex_witness:
  "generate_loop (\<lambda>t. 0xC0FFEE00000000000000000000000000) (random_text example_env) [] 0 = Some ''C0FFEE''
   \<and> is_hex_code ''C0FFEE''
   \<and> new_code_of 0xC0FFEE00000000000000000000000000 = ''C0FFEE''"
proof -
  have h: "is_hex_code ''C0FFEE''"
    by (simp add: is_hex_code_def upper_hex_digits_def)
  from candidate_space_hex[of "\<lambda>t. 0xC0FFEE00000000000000000000000000" "random_text example_env"
      "[]" "''C0FFEE''" "''C0FFEE''"] h
  show ?thesis by (simp add: digest_with_prefix_example)
qed

text \<open>
  Claim C4. A request whose end date is not strictly after its start date ends in a
  validation error and leaves the database as it was (the error is the one about the
  dates when the phone number is valid); a request with the end date one day after the
  start date, a valid phone number, an existing van, a fresh row id and a draw that gives
  a free code is created, and the stored booking lasts one day.
\<close>

theorem dates_validated:
  "(selectedVan st = Some van \<and> startDate st = Some sd \<and> endDate st = Some ed \<and> \<not> sd < ed
      \<longrightarrow> (\<exists>out. handleSubmit md5 env st db = Some (out, db) \<and> is_ValidationError out)
          \<and> (phoneRegex_test (replace_separators (phone (form st)))
               \<longrightarrow> handleSubmit md5 env st db = Some (Invalid_Dates, db)))
   \<and> (selectedVan st = Some van \<and> startDate st = Some sd \<and> endDate st = Some (sd + 1)
        \<and> phoneRegex_test (replace_separators (phone (form st)))
        \<and> id_v van \<in> set (map id_v (vans db))
        \<and> gen_random_uuid env \<notin> set (map id_b (bookings db))
        \<and> new_code_of (md5 (random_text env k)) \<notin> set (codes (bookings db))
      \<longrightarrow> (\<exists>b. handleSubmit md5 env st db
                   = Some (Booking_Created b, db\<lparr>bookings := bookings db @ [b]\<rparr>)
               \<and> start_date b = sd \<and> end_date b = sd + 1
               \<and> differenceInDays (end_date b) (start_date b) = 1
               \<and> total_price b = price_per_day van))"
proof (intro conjI impI)
  assume a: "selectedVan st = Some van \<and> startDate st = Some sd \<and> endDate st = Some ed \<and> \<not> sd < ed"
  then have sel: "selectedVan st = Some van" "startDate st = Some sd" "endDate st = Some ed"
    and d: "ed - sd < 1"
    by simp_all
  note u = handleSubmit_unfold[OF sel, of md5 env db]
  show "\<exists>out. handleSubmit md5 env st db = Some (out, db) \<and> is_ValidationError out"
    unfolding u using d by (simp add: is_ValidationError_def)
  assume "phoneRegex_test (replace_separators (phone (form st)))"
  then show "handleSubmit md5 env st db = Some (Invalid_Dates, db)"
    unfolding u using d by simp
next
  assume a: "selectedVan st = Some van \<and> startDate st = Some sd \<and> endDate st = Some (sd + 1)
        \<and> phoneRegex_test (replace_separators (phone (form st)))
        \<and> id_v van \<in> set (map id_v (vans db))
        \<and> gen_random_uuid env \<notin> set (map id_b (bookings db))
        \<and> new_code_of (md5 (random_text env k)) \<notin> set (codes (bookings db))"
  then have sel: "selectedVan st = Some van" "startDate st = Some sd" "endDate st = Some (sd + 1)"
    and ph: "phoneRegex_test (replace_separators (phone (form st)))"
    and fk: "van_id_i (submitted_row st van sd (sd + 1)) \<in> set (map id_v (vans db))"
    and pk: "gen_random_uuid env \<notin> set (map id_b (bookings db))"
    and free: "new_code_of (md5 (random_text env k)) \<notin> set (codes (bookings db))"
    by (simp_all add: submitted_row_fields)
  note u = handleSubmit_unfold[OF sel, of md5 env db]
  from insert_bookings_succeeds[of "submitted_row st van sd (sd + 1)" db env md5 k, OF fk pk free] obtain c where
    ins: "insert_bookings md5 env (submitted_row st van sd (sd + 1)) db =
           Some (Inr ((column_defaults env (submitted_row st van sd (sd + 1)))\<lparr>booking_code := Some c\<rparr>,
                      db\<lparr>bookings := bookings db @ [(column_defaults env (submitted_row st van sd (sd + 1)))\<lparr>booking_code := Some c\<rparr>]\<rparr>))"
    by blast
  define b where "b = (column_defaults env (submitted_row st van sd (sd + 1)))\<lparr>booking_code := Some c\<rparr>"
  have h: "handleSubmit md5 env st db = Some (Booking_Created b, db\<lparr>bookings := bookings db @ [b]\<rparr>)"
    unfolding u ins b_def using ph by simp
  have f: "start_date b = sd" "end_date b = sd + 1" "total_price b = totalPrice st"
    unfolding b_def by (simp_all only: column_defaults_fields submitted_row_fields)
  have "total_price b = price_per_day van"
    using totalPrice_selected(2)[OF sel] f(3) by simp
  with h f show "\<exists>b. handleSubmit md5 env st db
                   = Some (Booking_Created b, db\<lparr>bookings := bookings db @ [b]\<rparr>)
               \<and> start_date b = sd \<and> end_date b = sd + 1
               \<and> differenceInDays (end_date b) (start_date b) = 1
               \<and> total_price b = price_per_day van"
    by (intro exI[of _ b]) (simp add: differenceInDays_def)
qed

text \<open>
  The example form with the end date on the start date, and one day after it.
\<close>

theorem dates_validated_witness:
  "handleSubmit example_md5 example_env
      (example_state\<lparr>endDate := Some (calendar_day 2025 6 10)\<rparr>) example_db0
     = Some (Invalid_Dates, example_db0)
   \<and> (\<exists>b. handleSubmit example_md5 example_env
              (example_state\<lparr>endDate := Some (calendar_day 2025 6 11)\<rparr>) example_db0
            = Some (Booking_Created b, example_db0\<lparr>bookings := bookings example_db0 @ [b]\<rparr>)
          \<and> start_date b = calendar_day 2025 6 10 \<and> end_date b = calendar_day 2025 6 11
          \<and> differenceInDays (end_date b) (start_date b) = 1
          \<and> total_price b = 1800)"
proof -
  have ph: "phoneRegex_test (replace_separators (phone (form example_state)))"
    by (simp add: example_state_fields replace_separators_example phoneRegex_test_example)
  have next_day: "calendar_day 2025 6 11 = calendar_day 2025 6 10 + 1"
    by (simp add: calendar_day_examples)
  have free: "new_code_of (example_md5 (random_text example_env 0)) \<notin> set (codes (bookings example_db0))"
    by (simp add: example_db0_fields)
  from dates_validated[of "example_state\<lparr>endDate := Some (calendar_day 2025 6 10)\<rparr>" example_van
      "calendar_day 2025 6 10" "calendar_day 2025 6 10" example_md5 example_env example_db0 0] ph
  have 1: "handleSubmit example_md5 example_env
      (example_state\<lparr>endDate := Some (calendar_day 2025 6 10)\<rparr>) example_db0
     = Some (Invalid_Dates, example_db0)"
    by (simp add: example_state_fields)
  from dates_validated[of "example_state\<lparr>endDate := Some (calendar_day 2025 6 11)\<rparr>" example_van
      "calendar_day 2025 6 10" "calendar_day 2025 6 10" example_md5 example_env example_db0 0]
    ph free
  have 2: "\<exists>b. handleSubmit example_md5 example_env
              (example_state\<lparr>endDate := Some (calendar_day 2025 6 11)\<rparr>) example_db0
            = Some (Booking_Created b, example_db0\<lparr>bookings := bookings example_db0 @ [b]\<rparr>)
          \<and> start_date b = calendar_day 2025 6 10 \<and> end_date b = calendar_day 2025 6 11
          \<and> differenceInDays (end_date b) (start_date b) = 1
          \<and> total_price b = 1800"
    by (simp add: example_state_fields example_db0_fields next_day)
  from 1 2 show ?thesis ..
qed

text \<open>
  Claim C5. With a van and both dates selected, the submission ends in the phone
  validation error exactly when the phone number, with its separators removed, does not
  match the pattern, and then nothing is persisted; when the dates are valid this is the
  only validation error. \<open>0891234567\<close> matches, \<open>12345\<close> does not.
\<close>

theorem phone_validated:
  "(selectedVan st = Some van \<and> startDate st = Some sd \<and> endDate st = Some ed \<longrightarrow>
      (handleSubmit md5 env st db = Some (Invalid_Phone, db)
         \<longleftrightarrow> \<not> phoneRegex_test (replace_separators (phone (form st))))
      \<and> (handleSubmit md5 env st db = Some (Invalid_Phone, db') \<longrightarrow> db' = db)
      \<and> (1 \<le> differenceInDays ed sd \<longrightarrow>
           ((\<exists>out db'. handleSubmit md5 env st db = Some (out, db') \<and> is_ValidationError out)
              \<longleftrightarrow> \<not> phoneRegex_test (replace_separators (phone (form st))))))
   \<and> phoneRegex_test (replace_separators ''0891234567'')
   \<and> \<not> phoneRegex_test (replace_separators ''12345'')"
proof (intro conjI impI)
  assume "selectedVan st = Some van \<and> startDate st = Some sd \<and> endDate st = Some ed"
  then have sel: "selectedVan st = Some van" "startDate st = Some sd" "endDate st = Some ed"
    by simp_all
  show "handleSubmit md5 env st db = Some (Invalid_Phone, db)
         \<longleftrightarrow> \<not> phoneRegex_test (replace_separators (phone (form st)))"
    by (simp add: handleSubmit_Invalid_Phone[OF sel])
  {
    assume "handleSubmit md5 env st db = Some (Invalid_Phone, db')"
    then show "db' = db" by (simp add: handleSubmit_Invalid_Phone[OF sel])
  }
  assume "1 \<le> differenceInDays ed sd"
  then have d: "\<not> ed - sd < 1" by (simp add: differenceInDays_def)
  show "(\<exists>out db'. handleSubmit md5 env st db = Some (out, db') \<and> is_ValidationError out)
              \<longleftrightarrow> \<not> phoneRegex_test (replace_separators (phone (form st)))"
  proof
    assume "\<exists>out db'. handleSubmit md5 env st db = Some (out, db') \<and> is_ValidationError out"
    then obtain db' where "handleSubmit md5 env st db = Some (Invalid_Phone, db')
        \<or> handleSubmit md5 env st db = Some (Invalid_Dates, db')"
      by (auto simp: is_ValidationError_def)
    with d show "\<not> phoneRegex_test (replace_separators (phone (form st)))"
      by (simp add: handleSubmit_Invalid_Phone[OF sel] handleSubmit_Invalid_Dates[OF sel])
  next
    assume "\<not> phoneRegex_test (replace_separators (phone (form st)))"
    then have "handleSubmit md5 env st db = Some (Invalid_Phone, db)"
      by (simp add: handleSubmit_Invalid_Phone[OF sel])
    then show "\<exists>out db'. handleSubmit md5 env st db = Some (out, db') \<and> is_ValidationError out"
      by (simp add: is_ValidationError_def)
  qed
next
  show "phoneRegex_test (replace_separators ''0891234567'')"
    by (simp add: replace_separators_def is_space_def phoneRegex_test_def is_digit_def)
  show "\<not> phoneRegex_test (replace_separators ''12345'')"
    by (simp add: replace_separators_def is_space_def phoneRegex_test_def is_digit_def)
qed

text \<open>
  The example form with the phone numbers \<open>12345\<close> and \<open>0891234567\<close>.
\<close>

theorem phone_validated_witness:
  "handleSubmit example_md5 example_env
     (example_state\<lparr>form := (form example_state)\<lparr>phone := ''12345''\<rparr>\<rparr>) example_db0
     = Some (Invalid_Phone, example_db0)
   \<and> handleSubmit example_md5 example_env
     (example_state\<lparr>form := (form example_state)\<lparr>phone := ''0891234567''\<rparr>\<rparr>) example_db0
     = Some (Booking_Created example_booking, example_db1)
   \<and> \<not> is_ValidationError (Booking_Created example_booking)
   \<and> 1 \<le> differenceInDays (calendar_day 2025 6 13) (calendar_day 2025 6 10)"
proof -
  have d: "1 \<le> differenceInDays (calendar_day 2025 6 13) (calendar_day 2025 6 10)"
    by (simp add: differenceInDays_def calendar_day_examples)
  from phone_validated[of "example_state\<lparr>form := (form example_state)\<lparr>phone := ''12345''\<rparr>\<rparr>"
      example_van "calendar_day 2025 6 10" "calendar_day 2025 6 13" example_md5 example_env
      example_db0 example_db0]
  have 1: "handleSubmit example_md5 example_env
     (example_state\<lparr>form := (form example_state)\<lparr>phone := ''12345''\<rparr>\<rparr>) example_db0
     = Some (Invalid_Phone, example_db0)"
    by (simp add: example_state_fields)
  from phone_validated[of "example_state\<lparr>form := (form example_state)\<lparr>phone := ''0891234567''\<rparr>\<rparr>"
      example_van "calendar_day 2025 6 10" "calendar_day 2025 6 13" example_md5 example_env
      example_db0 example_db1] d
  have 2: "\<not> is_ValidationError (Booking_Created example_booking)"
    by (simp add: example_state_fields example_submit_plain)
  from 1 2 d example_submit_plain show ?thesis by simp
qed

text \<open>
  Claim C6, as stated: a lookup with a code that no booking holds returns not-found. It
  fails for the blank code: the empty input (the Enter key in the empty field) is held by
  no booking, and \<open>handleLookup\<close> returns at its first line, leaving the page as it was,
  with no not-found message.
\<close>

theorem lookup_blank_counterexample:
  "toUpperCase (trim (lookupCode example_state)) \<notin> set (codes (bookings example_db1))
   \<and> handleLookup example_db1 example_state = example_state
   \<and> lookupError (handleLookup example_db1 example_state) \<noteq> not_found_message"
proof -
  have t: "trim (lookupCode example_state) = []"
    by (simp add: example_state_def trim_def)
  have c: "codes (bookings example_db1) = [''A1B2C3'']"
    by (simp add: example_db1_def example_booking_def)
  have h: "handleLookup example_db1 example_state = example_state"
    using t by (rule handleLookup_blank)
  have "lookupError example_state \<noteq> not_found_message"
    by (simp add: example_state_def not_found_message_def)
  with h t c show ?thesis by (simp add: toUpperCase_def)
qed

text \<open>
  Claim C6, amended. In every reachable database, looking up the code of a stored booking,
  in any letter case and between any white space, sets the result to that booking, joined
  with the name, model and image of its van when a van row is joined, and clears the
  error; a lookup whose trimmed input is not empty and, upper-cased, is held by no booking
  sets the not-found message and no result; a lookup whose trimmed input is empty changes
  nothing.
\<close>

theorem lookup_round_trip:
  "(reachable md5 db \<and> b \<in> set (bookings db) \<and> booking_code b = Some c
      \<and> list_all is_space pre \<and> list_all is_space post \<and> toUpperCase v = c
     \<longrightarrow> handleLookup db (st\<lparr>lookupCode := pre @ v @ post\<rparr>)
          = st\<lparr>lookupCode := pre @ v @ post, lookupLoading := False, lookupError := [],
               lookupResult := Some (b, map_option (\<lambda>v. (name v, model v, image_url v))
                                         (find (\<lambda>v. id_v v = van_id b) (vans db)))\<rparr>)
   \<and> (trim (lookupCode st) \<noteq> [] \<and> toUpperCase (trim (lookupCode st)) \<notin> set (codes (bookings db))
     \<longrightarrow> handleLookup db st
          = st\<lparr>lookupLoading := False, lookupError := not_found_message, lookupResult := None\<rparr>)
   \<and> (trim (lookupCode st) = [] \<longrightarrow> handleLookup db st = st)"
proof (intro conjI impI)
  assume a: "reachable md5 db \<and> b \<in> set (bookings db) \<and> booking_code b = Some c
      \<and> list_all is_space pre \<and> list_all is_space post \<and> toUpperCase v = c"
  then have "reachable md5 db" ..
  then have inv: "codes_invariant (bookings db)"
    by (rule reachable_invariant)
  from a have b: "b \<in> set (bookings db)" "booking_code b = Some c" by simp_all
  then have "Some c \<in> booking_code ` set (bookings db)"
    by force
  then have "c \<in> set (codes (bookings db))"
    by (simp add: set_codes)
  with inv have hex: "is_hex_code c"
    by (simp add: codes_invariant_def list_all_iff)
  from a have up: "toUpperCase v = c" by simp
  note v = toUpperCase_hex_code[OF up hex]
  from a have "trim (pre @ v @ post) = v"
    by (intro trim_surrounded v) simp_all
  then have t: "trim (lookupCode (st\<lparr>lookupCode := pre @ v @ post\<rparr>)) = v" by simp
  have "select_by_booking_code db (toUpperCase (trim (lookupCode (st\<lparr>lookupCode := pre @ v @ post\<rparr>))))
      = [(b, map_option (\<lambda>v. (name v, model v, image_url v)) (find (\<lambda>v. id_v v = van_id b) (vans db)))]"
    unfolding t up by (rule select_by_booking_code_unique[OF inv b])
  from handleLookup_found[OF _ this] t v(1)
  show "handleLookup db (st\<lparr>lookupCode := pre @ v @ post\<rparr>)
          = st\<lparr>lookupCode := pre @ v @ post, lookupLoading := False, lookupError := [],
               lookupResult := Some (b, map_option (\<lambda>v. (name v, model v, image_url v))
                                         (find (\<lambda>v. id_v v = van_id b) (vans db)))\<rparr>"
    by simp
next
  assume "trim (lookupCode st) \<noteq> [] \<and> toUpperCase (trim (lookupCode st)) \<notin> set (codes (bookings db))"
  then show "handleLookup db st
          = st\<lparr>lookupLoading := False, lookupError := not_found_message, lookupResult := None\<rparr>"
    by (simp add: handleLookup_not_found)
next
  assume "trim (lookupCode st) = []"
  then show "handleLookup db st = st" by (rule handleLookup_blank)
qed

text \<open>
  The lookups of \<open>a1b2c3\<close> between spaces, of \<open>ffffff\<close> and of three spaces in the
  database that holds the example booking.
\<close>

theorem lookup_round_trip_witness:
  "handleLookup example_db1 (example_state\<lparr>lookupCode := ''  a1b2c3 ''\<rparr>)
     = example_state\<lparr>lookupCode := ''  a1b2c3 '', lookupLoading := False, lookupError := [],
         lookupResult := Some (example_booking,
            Some (''City Cruiser'', ''Hyundai H-1 Premium 2023'', Some ''city-cruiser.jpg''))\<rparr>
   \<and> handleLookup example_db1 (example_state\<lparr>lookupCode := ''ffffff''\<rparr>)
     = example_state\<lparr>lookupCode := ''ffffff'', lookupLoading := False,
         lookupError := not_found_message, lookupResult := None\<rparr>
   \<and> handleLookup example_db1 (example_state\<lparr>lookupCode := ''   ''\<rparr>)
     = example_state\<lparr>lookupCode := ''   ''\<rparr>"
proof -
  have up: "toUpperCase ''a1b2c3'' = ''A1B2C3''" "toUpperCase ''ffffff'' = ''FFFFFF''"
    by (simp_all add: toUpperCase_def toUpperChar_def)
  have sp: "list_all is_space ''  ''" "list_all is_space '' ''"
    by (simp_all add: is_space_def)
  have tr: "trim ''ffffff'' = ''ffffff''" "trim ''   '' = []"
    by (simp_all add: trim_def is_space_def)
  have join: "map_option (\<lambda>v. (name v, model v, image_url v))
       (find (\<lambda>v. id_v v = van_id example_booking) (vans example_db1))
     = Some (''City Cruiser'', ''Hyundai H-1 Premium 2023'', Some ''city-cruiser.jpg'')"
    by (simp add: example_db1_fields example_van_def)
  have hyp: "reachable example_md5 example_db1 \<and> example_booking \<in> set (bookings example_db1)
      \<and> booking_code example_booking = Some ''A1B2C3''
      \<and> list_all is_space ''  '' \<and> list_all is_space '' '' \<and> toUpperCase ''a1b2c3'' = ''A1B2C3''"
    using reachable_example_db1 up sp by (simp add: example_db1_fields)
  from lookup_round_trip[of example_md5 example_db1 example_booking "''A1B2C3''" "''  ''" "'' ''"
      "''a1b2c3''" example_state] hyp
  have "handleLookup example_db1 (example_state\<lparr>lookupCode := ''  '' @ ''a1b2c3'' @ '' ''\<rparr>)
          = example_state\<lparr>lookupCode := ''  '' @ ''a1b2c3'' @ '' '', lookupLoading := False,
               lookupError := [],
               lookupResult := Some (example_booking, map_option (\<lambda>v. (name v, model v, image_url v))
                  (find (\<lambda>v. id_v v = van_id example_booking) (vans example_db1)))\<rparr>"
    by blast
  then have 1: "handleLookup example_db1 (example_state\<lparr>lookupCode := ''  a1b2c3 ''\<rparr>)
     = example_state\<lparr>lookupCode := ''  a1b2c3 '', lookupLoading := False, lookupError := [],
         lookupResult := Some (example_booking,
            Some (''City Cruiser'', ''Hyundai H-1 Premium 2023'', Some ''city-cruiser.jpg''))\<rparr>"
    unfolding join by simp
  from lookup_round_trip[of example_md5 example_db1 example_booking "''A1B2C3''" "''  ''" "'' ''"
      "''a1b2c3''" "example_state\<lparr>lookupCode := ''ffffff''\<rparr>"] up tr
  have 2: "handleLookup example_db1 (example_state\<lparr>lookupCode := ''ffffff''\<rparr>)
     = example_state\<lparr>lookupCode := ''ffffff'', lookupLoading := False,
         lookupError := not_found_message, lookupResult := None\<rparr>"
    by (simp add: example_db1_fields)
  from lookup_round_trip[of example_md5 example_db1 example_booking "''A1B2C3''" "''  ''" "'' ''"
      "''a1b2c3''" "example_state\<lparr>lookupCode := ''   ''\<rparr>"] tr
  have 3: "handleLookup example_db1 (example_state\<lparr>lookupCode := ''   ''\<rparr>)
     = example_state\<lparr>lookupCode := ''   ''\<rparr>"
    by simp
  from 1 2 3 show ?thesis by blast
qed

text \<open>
  Claim C7. \<open>updateStatus\<close> never reports an error: whatever the current status, every
  booking with the given id gets the requested status and the other bookings keep theirs;
  a known booking is afterwards in the table with the requested status; repeating the
  update succeeds again and leaves every status as it is (it renews the time of the last
  update of the booking and changes nothing else).
\<close>

theorem status_update_unconditional:
  "fst (updateStatus env i s db) = Status_Updated s
   \<and> map status (bookings (snd (updateStatus env i s db)))
       = map (\<lambda>b. if id_b b = i then s else status b) (bookings db)
   \<and> map id_b (bookings (snd (updateStatus env i s db))) = map id_b (bookings db)
   \<and> (b \<in> set (bookings db) \<and> id_b b = i
        \<longrightarrow> b\<lparr>status := s, updated_at := now env\<rparr> \<in> set (bookings (snd (updateStatus env i s db))))
   \<and> fst (updateStatus env' i s (snd (updateStatus env i s db))) = Status_Updated s
   \<and> map status (bookings (snd (updateStatus env' i s (snd (updateStatus env i s db)))))
       = map status (bookings (snd (updateStatus env i s db)))
   \<and> bookings (snd (updateStatus env' i s (snd (updateStatus env i s db))))
       = map (\<lambda>b. if id_b b = i then b\<lparr>updated_at := now env'\<rparr> else b)
           (bookings (snd (updateStatus env i s db)))"
proof (intro conjI impI)
  show "fst (updateStatus env i s db) = Status_Updated s"
    by (simp add: updateStatus_eq)
  show "bookings (snd (updateStatus env' i s (snd (updateStatus env i s db))))
       = map (\<lambda>b. if id_b b = i then b\<lparr>updated_at := now env'\<rparr> else b)
           (bookings (snd (updateStatus env i s db)))"
    by (simp add: updateStatus_bookings)
  show st: "map status (bookings (snd (updateStatus env i s db)))
       = map (\<lambda>b. if id_b b = i then s else status b) (bookings db)" for env db
    by (simp add: updateStatus_bookings comp_def if_distrib cong: if_cong)
  show ids: "map id_b (bookings (snd (updateStatus env i s db))) = map id_b (bookings db)" for env db
    by (simp add: updateStatus_bookings comp_def if_distrib cong: if_cong)
  show "fst (updateStatus env' i s (snd (updateStatus env i s db))) = Status_Updated s"
    by (simp add: updateStatus_eq)
  have "map status (bookings (snd (updateStatus env' i s (snd (updateStatus env i s db)))))
      = map (\<lambda>b. if id_b b = i then s else status b) (bookings (snd (updateStatus env i s db)))"
    by (rule st)
  also have "\<dots> = map (\<lambda>b. if id_b b = i then s else status b) (bookings db)"
    by (simp add: updateStatus_bookings comp_def if_distrib cong: if_cong)
  also have "\<dots> = map status (bookings (snd (updateStatus env i s db)))"
    by (rule st[symmetric])
  finally show "map status (bookings (snd (updateStatus env' i s (snd (updateStatus env i s db)))))
       = map status (bookings (snd (updateStatus env i s db)))" .
next
  assume "b \<in> set (bookings db) \<and> id_b b = i"
  then show "b\<lparr>status := s, updated_at := now env\<rparr> \<in> set (bookings (snd (updateStatus env i s db)))"
    by (force simp: updateStatus_bookings image_iff)
qed

text \<open>
  Confirming the example booking twice, and setting it to pending after cancelling it.
\<close>

theorem status_update_unconditional_witness:
  "example_booking \<in> set (bookings example_db1) \<and> id_b example_booking = ''b1''
   \<and> fst (updateStatus example_env2 ''b1'' confirmed example_db1) = Status_Updated confirmed
   \<and> example_booking\<lparr>status := confirmed, updated_at := 200\<rparr>
        \<in> set (bookings (snd (updateStatus example_env2 ''b1'' confirmed example_db1)))
   \<and> map status (bookings (snd (updateStatus example_env2 ''b1'' confirmed example_db1)))
        = [confirmed]
   \<and> fst (updateStatus example_env2 ''b1'' confirmed
             (snd (updateStatus example_env2 ''b1'' confirmed example_db1)))
        = Status_Updated confirmed
   \<and> map status (bookings (snd (updateStatus example_env2 ''b1'' confirmed
             (snd (updateStatus example_env2 ''b1'' confirmed example_db1)))))
        = [confirmed]
   \<and> map status (bookings (snd (updateStatus example_env2 ''b1'' pending
             (snd (updateStatus example_env2 ''b1'' cancelled example_db1)))))
        = [pending]"
proof -
  have n: "now example_env2 = 200" by (simp add: example_env2_def)
  have m: "example_booking \<in> set (bookings example_db1) \<and> id_b example_booking = ''b1''"
    by (simp add: example_db1_fields)
  note t = status_update_unconditional[of example_env2 "''b1''" confirmed example_db1
      example_booking example_env2]
  from t have 1: "fst (updateStatus example_env2 ''b1'' confirmed example_db1) = Status_Updated confirmed"
    by blast
  from t m have "example_booking\<lparr>status := confirmed, updated_at := now example_env2\<rparr>
        \<in> set (bookings (snd (updateStatus example_env2 ''b1'' confirmed example_db1)))"
    by blast
  then have 2: "example_booking\<lparr>status := confirmed, updated_at := 200\<rparr>
        \<in> set (bookings (snd (updateStatus example_env2 ''b1'' confirmed example_db1)))"
    by (simp only: n)
  from t have "map status (bookings (snd (updateStatus example_env2 ''b1'' confirmed example_db1)))
       = map (\<lambda>b. if id_b b = ''b1'' then confirmed else status b) (bookings example_db1)"
    by blast
  then have 3: "map status (bookings (snd (updateStatus example_env2 ''b1'' confirmed example_db1)))
        = [confirmed]"
    by (simp add: example_db1_fields)
  from t have 4: "fst (updateStatus example_env2 ''b1'' confirmed
             (snd (updateStatus example_env2 ''b1'' confirmed example_db1)))
        = Status_Updated confirmed"
    by blast
  from t have "map status (bookings (snd (updateStatus example_env2 ''b1'' confirmed
             (snd (updateStatus example_env2 ''b1'' confirmed example_db1)))))
        = map status (bookings (snd (updateStatus example_env2 ''b1'' confirmed example_db1)))"
    by blast
  with 3 have 5: "map status (bookings (snd (updateStatus example_env2 ''b1'' confirmed
             (snd (updateStatus example_env2 ''b1'' confirmed example_db1)))))
        = [confirmed]"
    by simp
  from status_update_unconditional[of example_env2 "''b1''" pending
      "snd (updateStatus example_env2 ''b1'' cancelled example_db1)" example_booking example_env2]
  have "map status (bookings (snd (updateStatus example_env2 ''b1'' pending
             (snd (updateStatus example_env2 ''b1'' cancelled example_db1)))))
        = map (\<lambda>b. if id_b b = ''b1'' then pending else status b)
            (bookings (snd (updateStatus example_env2 ''b1'' cancelled example_db1)))"
    by blast
  also have "\<dots> = [pending]"
    by (simp add: updateStatus_bookings example_db1_fields)
  finally have 6: "map status (bookings (snd (updateStatus example_env2 ''b1'' pending
             (snd (updateStatus example_env2 ''b1'' cancelled example_db1)))))
        = [pending]" .
  from m 1 2 3 4 5 6 show ?thesis by blast
qed

text \<open>
  Claim C8. With the label of a status as filter the list holds exactly the bookings of
  that status, with \<open>all\<close> it holds every booking, each as often as the table does (there
  is no limit), ordered by creation time, latest first; after a pending booking is
  confirmed it is in the list of the confirmed bookings and no booking with its id is in
  the list of the pending ones.
\<close>

theorem list_filtered_newest_first:
  "(booking_status_of_text f = Some s \<longrightarrow>
      mset (map fst (fetchBookings f db)) = mset (filter (\<lambda>b. status b = s) (bookings db))
      \<and> sorted_wrt (\<lambda>x y. created_at y \<le> created_at x) (map fst (fetchBookings f db)))
   \<and> mset (map fst (fetchBookings ''all'' db)) = mset (bookings db)
   \<and> sorted_wrt (\<lambda>x y. created_at y \<le> created_at x) (map fst (fetchBookings ''all'' db))
   \<and> (b \<in> set (bookings db) \<and> status b = pending \<longrightarrow>
        b\<lparr>status := confirmed, updated_at := now env\<rparr>
          \<in> set (map fst (fetchBookings ''confirmed'' (snd (updateStatus env (id_b b) confirmed db))))
        \<and> id_b b \<notin> set (map id_b (map fst
              (fetchBookings ''pending'' (snd (updateStatus env (id_b b) confirmed db))))))"
proof (intro conjI impI)
  assume f: "booking_status_of_text f = Some s"
  show "mset (map fst (fetchBookings f db)) = mset (filter (\<lambda>b. status b = s) (bookings db))"
    by (simp only: fetchBookings_status[OF f] fst_embed_vans mset_order_created_at_desc)
  show "sorted_wrt (\<lambda>x y. created_at y \<le> created_at x) (map fst (fetchBookings f db))"
    by (simp only: fetchBookings_status[OF f] fst_embed_vans sorted_order_created_at_desc)
next
  show "mset (map fst (fetchBookings ''all'' db)) = mset (bookings db)"
    by (simp only: fetchBookings_all fst_embed_vans mset_order_created_at_desc)
  show "sorted_wrt (\<lambda>x y. created_at y \<le> created_at x) (map fst (fetchBookings ''all'' db))"
    by (simp only: fetchBookings_all fst_embed_vans sorted_order_created_at_desc)
next
  assume a: "b \<in> set (bookings db) \<and> status b = pending"
  let ?db' = "snd (updateStatus env (id_b b) confirmed db)"
  have c: "booking_status_of_text ''confirmed'' = Some confirmed"
    and p: "booking_status_of_text ''pending'' = Some pending"
    by (simp_all add: booking_status_of_text_def)
  have sc: "set (map fst (fetchBookings ''confirmed'' ?db')) = {x \<in> set (bookings ?db'). status x = confirmed}"
    using mset_eq_setD[OF mset_order_created_at_desc]
    by (simp only: fetchBookings_status[OF c] fst_embed_vans) simp
  have sp: "set (map fst (fetchBookings ''pending'' ?db')) = {x \<in> set (bookings ?db'). status x = pending}"
    using mset_eq_setD[OF mset_order_created_at_desc]
    by (simp only: fetchBookings_status[OF p] fst_embed_vans) simp
  from a have "b\<lparr>status := confirmed, updated_at := now env\<rparr> \<in> set (bookings ?db')"
    by (force simp: updateStatus_bookings image_iff)
  then show "b\<lparr>status := confirmed, updated_at := now env\<rparr>
      \<in> set (map fst (fetchBookings ''confirmed'' ?db'))"
    unfolding sc by simp
  show "id_b b \<notin> set (map id_b (map fst (fetchBookings ''pending'' ?db')))"
  proof
    assume "id_b b \<in> set (map id_b (map fst (fetchBookings ''pending'' ?db')))"
    from in_set_mapD[OF this]
    obtain x where "x \<in> set (map fst (fetchBookings ''pending'' ?db'))" "id_b x = id_b b"
      by (elim bexE)
    then have "x \<in> set (bookings ?db')" "status x = pending" "id_b x = id_b b"
      unfolding sp by simp_all
    then show False
      by (auto simp: updateStatus_bookings split: if_splits)
  qed
qed

text \<open>
  The pending bookings of the database with three bookings, and the lists after the first
  booking is confirmed.
\<close>

theorem list_filtered_newest_first_witness:
  "booking_status_of_text ''pending'' = Some pending
   \<and> map fst (fetchBookings ''pending'' example_db2)
       = [example_booking\<lparr>id_b := ''b3'', created_at := 200, updated_at := 200,
            booking_code := Some ''C0FFEE''\<rparr>, example_booking]
   \<and> mset (map fst (fetchBookings ''pending'' example_db2))
       = mset (filter (\<lambda>b. status b = pending) (bookings example_db2))
   \<and> sorted_wrt (\<lambda>x y. created_at y \<le> created_at x) (map fst (fetchBookings ''pending'' example_db2))
   \<and> example_booking \<in> set (bookings example_db2) \<and> status example_booking = pending
   \<and> example_booking\<lparr>status := confirmed, updated_at := 200\<rparr>
        \<in> set (map fst (fetchBookings ''confirmed''
             (snd (updateStatus example_env2 ''b1'' confirmed example_db2))))
   \<and> ''b1'' \<notin> set (map id_b (map fst (fetchBookings ''pending''
             (snd (updateStatus example_env2 ''b1'' confirmed example_db2)))))"
proof -
  have p: "booking_status_of_text ''pending'' = Some pending"
    by (simp add: booking_status_of_text_def)
  have m: "example_booking \<in> set (bookings example_db2)" "status example_booking = pending"
    "id_b example_booking = ''b1''" "now example_env2 = 200"
    by (simp_all add: example_db2_def example_booking_def example_env2_def)
  from list_filtered_newest_first[of "''pending''" pending example_db2 example_booking example_env2]
    p m
  have "mset (map fst (fetchBookings ''pending'' example_db2))
       = mset (filter (\<lambda>b. status b = pending) (bookings example_db2))"
    "sorted_wrt (\<lambda>x y. created_at y \<le> created_at x) (map fst (fetchBookings ''pending'' example_db2))"
    "example_booking\<lparr>status := confirmed, updated_at := 200\<rparr>
        \<in> set (map fst (fetchBookings ''confirmed''
             (snd (updateStatus example_env2 ''b1'' confirmed example_db2))))"
    "''b1'' \<notin> set (map id_b (map fst (fetchBookings ''pending''
             (snd (updateStatus example_env2 ''b1'' confirmed example_db2)))))"
    by simp_all
  with p m example_db2_pending show ?thesis by blast
qed

text \<open>
  Claim C9. \<open>updateStatus\<close> changes the status and the time of the last update of the
  bookings with the given id and nothing else: the vans, the number and order of the
  bookings and every other column of every booking, the total price and the booking code
  among them, stay as they are, and the result does not depend on the vans table, so a
  changed daily rate changes no stored total. The other statement that writes the table,
  the insert, appends its row and leaves the stored bookings as they are.
\<close>

theorem status_update_frame:
  "bookings (snd (updateStatus env i s db))
     = map (\<lambda>b. if id_b b = i then b\<lparr>status := s, updated_at := now env\<rparr> else b) (bookings db)
   \<and> vans (snd (updateStatus env i s db)) = vans db
   \<and> length (bookings (snd (updateStatus env i s db))) = length (bookings db)
   \<and> (k < length (bookings db) \<longrightarrow>
        (bookings (snd (updateStatus env i s db)) ! k)
            \<lparr>status := status (bookings db ! k), updated_at := updated_at (bookings db ! k)\<rparr>
          = bookings db ! k
        \<and> total_price (bookings (snd (updateStatus env i s db)) ! k) = total_price (bookings db ! k)
        \<and> booking_code (bookings (snd (updateStatus env i s db)) ! k) = booking_code (bookings db ! k))
   \<and> bookings (snd (updateStatus env i s (db\<lparr>vans := vs\<rparr>))) = bookings (snd (updateStatus env i s db))
   \<and> (insert_bookings md5 env' r db = Some (Inr (b, db')) \<longrightarrow> bookings db' = bookings db @ [b])"
proof (intro conjI impI)
  show "bookings (snd (updateStatus env i s db))
     = map (\<lambda>b. if id_b b = i then b\<lparr>status := s, updated_at := now env\<rparr> else b) (bookings db)"
    by (rule updateStatus_bookings)
  show "vans (snd (updateStatus env i s db)) = vans db"
    by (simp add: updateStatus_eq)
  show "length (bookings (snd (updateStatus env i s db))) = length (bookings db)"
    by (simp add: updateStatus_bookings)
  show "bookings (snd (updateStatus env i s (db\<lparr>vans := vs\<rparr>))) = bookings (snd (updateStatus env i s db))"
    by (simp add: updateStatus_bookings)
next
  assume k: "k < length (bookings db)"
  then have nth: "bookings (snd (updateStatus env i s db)) ! k
      = (if id_b (bookings db ! k) = i then (bookings db ! k)\<lparr>status := s, updated_at := now env\<rparr>
         else bookings db ! k)"
    by (simp add: updateStatus_bookings)
  show "(bookings (snd (updateStatus env i s db)) ! k)
            \<lparr>status := status (bookings db ! k), updated_at := updated_at (bookings db ! k)\<rparr>
          = bookings db ! k"
    unfolding nth by simp
  show "total_price (bookings (snd (updateStatus env i s db)) ! k) = total_price (bookings db ! k)"
    unfolding nth by simp
  show "booking_code (bookings (snd (updateStatus env i s db)) ! k) = booking_code (bookings db ! k)"
    unfolding nth by simp
next
  assume "insert_bookings md5 env' r db = Some (Inr (b, db'))"
  from insert_bookings_Inr[OF this] show "bookings db' = bookings db @ [b]"
    by auto
qed

text \<open>
  Completing the example booking, also after the daily rate of its van has changed, and
  the insert of the example booking.
\<close>

theorem status_update_frame_witness:
  "0 < length (bookings example_db1)
   \<and> bookings (snd (updateStatus example_env2 ''b1'' completed example_db1))
       = [example_booking\<lparr>status := completed, updated_at := 200\<rparr>]
   \<and> total_price (bookings (snd (updateStatus example_env2 ''b1'' completed example_db1)) ! 0) = 5400
   \<and> booking_code (bookings (snd (updateStatus example_env2 ''b1'' completed example_db1)) ! 0)
       = Some ''A1B2C3''
   \<and> bookings (snd (updateStatus example_env2 ''b1'' completed
         (example_db1\<lparr>vans := [example_van\<lparr>price_per_day := 2500\<rparr>]\<rparr>)))
       = [example_booking\<lparr>status := completed, updated_at := 200\<rparr>]
   \<and> insert_bookings example_md5 example_env
         (submitted_row example_state example_van 20249 20252) example_db0
       = Some (Inr (example_booking, example_db1))
   \<and> bookings example_db1 = bookings example_db0 @ [example_booking]"
proof -
  have f: "bookings example_db1 ! 0 = example_booking" "total_price example_booking = 5400"
    "now example_env2 = 200" "length (bookings example_db1) = 1"
    by (simp_all add: example_db1_fields example_booking_def example_env2_def)
  note t = status_update_frame[of example_env2 "''b1''" completed example_db1 0
      "[example_van\<lparr>price_per_day := 2500\<rparr>]" example_md5 example_env
      "submitted_row example_state example_van 20249 20252" example_booking example_db1]
  from t have "bookings (snd (updateStatus example_env2 ''b1'' completed example_db1))
     = map (\<lambda>b. if id_b b = ''b1'' then b\<lparr>status := completed, updated_at := now example_env2\<rparr> else b)
         (bookings example_db1)"
    by blast
  then have 1: "bookings (snd (updateStatus example_env2 ''b1'' completed example_db1))
       = [example_booking\<lparr>status := completed, updated_at := 200\<rparr>]"
    by (simp add: example_db1_fields f)
  from t f have "total_price (bookings (snd (updateStatus example_env2 ''b1'' completed example_db1)) ! 0)
        = total_price (bookings example_db1 ! 0)
      \<and> booking_code (bookings (snd (updateStatus example_env2 ''b1'' completed example_db1)) ! 0)
        = booking_code (bookings example_db1 ! 0)"
    by simp
  then have 2: "total_price (bookings (snd (updateStatus example_env2 ''b1'' completed example_db1)) ! 0) = 5400"
    "booking_code (bookings (snd (updateStatus example_env2 ''b1'' completed example_db1)) ! 0)
       = Some ''A1B2C3''"
    by (simp_all add: f example_db1_fields)
  from t have "bookings (snd (updateStatus example_env2 ''b1'' completed
         (example_db1\<lparr>vans := [example_van\<lparr>price_per_day := 2500\<rparr>]\<rparr>)))
       = bookings (snd (updateStatus example_env2 ''b1'' completed example_db1))"
    by blast
  with 1 have 3: "bookings (snd (updateStatus example_env2 ''b1'' completed
         (example_db1\<lparr>vans := [example_van\<lparr>price_per_day := 2500\<rparr>]\<rparr>)))
       = [example_booking\<lparr>status := completed, updated_at := 200\<rparr>]"
    by simp
  from status_update_frame[of example_env2 "''b1''" completed example_db0 0
      "[example_van\<lparr>price_per_day := 2500\<rparr>]" example_md5 example_env
      "submitted_row example_state example_van 20249 20252" example_booking example_db1]
    example_insert
  have 4: "bookings example_db1 = bookings example_db0 @ [example_booking]"
    by blast
  from f 1 2 3 4 example_insert show ?thesis by simp
qed



end
